theory Spec2Isabelle
  imports Complex_Main
begin

section \<open>Strings and numbers of the host language\<close>

text \<open>
  Source strings are modelled as \<^typ>\<open>string\<close>, one \<^typ>\<open>char\<close> per code unit; the
  inputs are taken to be ASCII text, where the built-in case mappings, \<open>trim\<close> and the
  regular-expression class \<open>\s\<close> act as written below.  A string is falsy exactly when
  it is empty.
\<close>

definition isSpace :: "char \<Rightarrow> bool" where
  "isSpace c = (c \<in> set [CHR 0x09, CHR 0x0A, CHR 0x0B, CHR 0x0C, CHR 0x0D, CHR '' ''])"

definition lowerLetters :: string where
  "lowerLetters = ''abcdefghijklmnopqrstuvwxyz''"

definition upperLetters :: string where
  "upperLetters = ''ABCDEFGHIJKLMNOPQRSTUVWXYZ''"

definition toUpperChar :: "char \<Rightarrow> char" where
  "toUpperChar c = (case map_of (zip lowerLetters upperLetters) c of None \<Rightarrow> c | Some u \<Rightarrow> u)"

definition toLowerChar :: "char \<Rightarrow> char" where
  "toLowerChar c = (case map_of (zip upperLetters lowerLetters) c of None \<Rightarrow> c | Some l \<Rightarrow> l)"

definition toUpperCase :: "string \<Rightarrow> string" where
  "toUpperCase s = map toUpperChar s"

definition toLowerCase :: "string \<Rightarrow> string" where
  "toLowerCase s = map toLowerChar s"

definition trim :: "string \<Rightarrow> string" where
  "trim s = rev (dropWhile isSpace (rev (dropWhile isSpace s)))"

definition startsWith :: "string \<Rightarrow> string \<Rightarrow> bool" where
  "startsWith s p = (take (length p) s = p)"

definition endsWith :: "string \<Rightarrow> string \<Rightarrow> bool" where
  "endsWith s p = (length p \<le> length s \<and> drop (length s - length p) s = p)"

text \<open>\<open>s.includes(sub)\<close>: \<open>sub\<close> occurs in \<open>s\<close> as a contiguous substring.\<close>

fun str_includes :: "string \<Rightarrow> string \<Rightarrow> bool" where
  "str_includes [] sub = (sub = [])"
| "str_includes (c # cs) sub = (startsWith (c # cs) sub \<or> str_includes cs sub)"

text \<open>
  A \<open>Set\<close> iterates in insertion order; \<open>Array.from(new Set(xs))\<close> therefore keeps the
  first occurrence of every element of \<open>xs\<close>, in order.
\<close>

definition set_add :: "'a list \<Rightarrow> 'a \<Rightarrow> 'a list" where
  "set_add s x = (if x \<in> set s then s else s @ [x])"

definition new_Set :: "'a list \<Rightarrow> 'a list" where
  "new_Set xs = foldl set_add [] xs"

text \<open>
  An object used as a dictionary: its entries in insertion order of the keys;
  \<open>obj[k] = v\<close> overwrites the entry of \<open>k\<close> in place or appends a new one.
\<close>

type_synonym 'v dict = "(string \<times> 'v) list"

fun assign :: "string \<Rightarrow> 'v \<Rightarrow> 'v dict \<Rightarrow> 'v dict" where
  "assign k v [] = [(k, v)]"
| "assign k v (p # ps) = (if fst p = k then (k, v) # ps else p # assign k v ps)"

text \<open>
  A \<open>number\<close> of the source: a rational, or \<open>NaN\<close>, with which every comparison is
  false.  A decimal literal stands for the value it denotes, in the input as in the
  constants it is compared with.  (The two infinities compare with the finite constants
  below as very large finite values do, and are not given constructors of their own.)
\<close>

datatype jsnum = Num rat | NaN

fun num_le :: "jsnum \<Rightarrow> rat \<Rightarrow> bool" where
  "num_le (Num x) c = (x \<le> c)"
| "num_le NaN c = False"

fun num_lt :: "jsnum \<Rightarrow> rat \<Rightarrow> bool" where
  "num_lt (Num x) c = (x < c)"
| "num_lt NaN c = False"

fun num_gt :: "jsnum \<Rightarrow> rat \<Rightarrow> bool" where
  "num_gt (Num x) c = (x > c)"
| "num_gt NaN c = False"

definition clamp :: "int \<Rightarrow> int \<Rightarrow> int \<Rightarrow> int" where
  "clamp n lo hi = max lo (min hi n)"


section \<open>Automation-need scorer (src/scoring.ts)\<close>

record ScoreInput =
  rating :: "jsnum option"
  user_ratings_total :: "jsnum option"
  website :: "string option"
  phone :: "string option"
  business_status :: "string option"

record ScoreOutput =
  score :: int
  reasons :: "string list"
  signals :: "int dict"

definition builderPenalty :: "string \<Rightarrow> int" where
  "builderPenalty site =
     (let w = toLowerCase site in
      if str_includes w ''wixsite'' \<or> str_includes w ''wix.com'' \<or>
         str_includes w ''square.site'' \<or> str_includes w ''squarespace'' \<or>
         str_includes w ''weebly'' \<or> str_includes w ''godaddysites'' \<or>
         str_includes w ''webflow''
      then 8 else 0)"

text \<open>
  The three mutable locals \<open>score\<close>, \<open>reasons\<close> and \<open>signals\<close> of
  \<open>computeAutomationNeedScoreDetailed\<close>, threaded through its five numbered steps.
\<close>

record tally =
  t_score :: int
  t_reasons :: "string list"
  t_signals :: "int dict"

definition emit :: "string \<Rightarrow> int \<Rightarrow> tally \<Rightarrow> tally" where
  "emit k v t = t\<lparr>t_signals := assign k v (t_signals t)\<rparr>"

definition push_reason :: "string \<Rightarrow> tally \<Rightarrow> tally" where
  "push_reason r t = t\<lparr>t_reasons := t_reasons t @ [r]\<rparr>"

definition add_score :: "int \<Rightarrow> tally \<Rightarrow> tally" where
  "add_score n t = t\<lparr>t_score := t_score t + n\<rparr>"

text \<open>1) Website signal.\<close>

definition websiteStep :: "string \<Rightarrow> tally \<Rightarrow> tally" where
  "websiteStep site t =
     (if site = [] then
        add_score 25 (push_reason ''No website (big automation + marketing gap)''
          (emit ''no_website'' 25 t))
      else
        (let bp = builderPenalty site in
         if bp > 0 then
           add_score bp (push_reason ''Website looks like a site-builder (upgrade opportunity)''
             (emit ''site_builder'' bp t))
         else emit ''has_website'' 0 t))"

text \<open>2) Reviews volume: the points and the reason of the band.\<close>

definition reviewBand :: "jsnum \<Rightarrow> int \<times> string" where
  "reviewBand reviews =
     (if num_le reviews 5 then (18, ''Very low review volume (weak online footprint)'')
      else if num_le reviews 20 then (14, ''Low review volume (weak online footprint)'')
      else if num_le reviews 60 then (10, ''Moderate review volume (growth opportunity)'')
      else if num_le reviews 150 then (6, ''Decent review volume (established presence)'')
      else (2, ''High review volume (strong presence)''))"

definition reviewStep :: "jsnum \<Rightarrow> tally \<Rightarrow> tally" where
  "reviewStep reviews t =
     (let (reviewPoints, reason) = reviewBand reviews in
      add_score reviewPoints (emit ''low_reviews'' reviewPoints (push_reason reason t)))"

text \<open>3) Rating penalty.\<close>

definition ratingBand :: "jsnum \<Rightarrow> int \<times> string" where
  "ratingBand r =
     (if num_gt r 0 then
        (if num_lt r (36 / 10) then (18, ''Poor rating (major ops / CX gap)'')
         else if num_lt r 4 then (14, ''Below average rating (ops / CX improvement needed)'')
         else if num_lt r (43 / 10) then (9, ''Mediocre rating (ops / CX gap)'')
         else if num_lt r (46 / 10) then (4, ''Good rating (minor improvement opportunities)'')
         else (1, ''Excellent rating (well-established business)''))
      else (6, ''No rating data (possible low activity / incomplete profile)''))"

definition ratingStep :: "jsnum \<Rightarrow> tally \<Rightarrow> tally" where
  "ratingStep r t =
     (let (ratingPoints, reason) = ratingBand r in
      add_score ratingPoints (emit ''rating_gap'' ratingPoints (push_reason reason t)))"

text \<open>4) Missing phone.\<close>

definition phoneStep :: "string \<Rightarrow> tally \<Rightarrow> tally" where
  "phoneStep ph t =
     (if ph = [] then
        add_score 8 (push_reason ''No phone listed (conversion friction)'' (emit ''no_phone'' 8 t))
      else emit ''phone_present'' 0 t)"

text \<open>5) Discount for operational businesses; the reason only if the score stays above 20.\<close>

definition operationalStep :: "string \<Rightarrow> tally \<Rightarrow> tally" where
  "operationalStep status t =
     (if str_includes (toUpperCase status) ''OPERATIONAL'' then
        (let t' = add_score (- 2) (emit ''operational'' (- 2) t) in
         if t_score t' > 20 then push_reason ''Currently operational (active business)'' t'
         else t')
      else t)"

definition orEmpty :: "string option \<Rightarrow> string" where
  "orEmpty s = (case s of None \<Rightarrow> [] | Some v \<Rightarrow> v)"

definition orZero :: "jsnum option \<Rightarrow> jsnum" where
  "orZero n = (case n of None \<Rightarrow> Num 0 | Some v \<Rightarrow> v)"

text \<open>The locals as they stand when control reaches the \<open>// Normalize\<close> comment.\<close>

definition accumulate :: "ScoreInput \<Rightarrow> tally" where
  "accumulate input =
     operationalStep (trim (orEmpty (business_status input)))
       (phoneStep (trim (orEmpty (phone input)))
         (ratingStep (orZero (rating input))
           (reviewStep (orZero (user_ratings_total input))
             (websiteStep (trim (orEmpty (website input)))
               \<lparr>t_score = 0, t_reasons = [], t_signals = []\<rparr>))))"

text \<open>
  \<open>Math.round\<close> is applied to a sum of integers and leaves it unchanged, so the
  normalisation is the clamp alone.
\<close>

definition computeAutomationNeedScoreDetailed :: "ScoreInput \<Rightarrow> ScoreOutput" where
  "computeAutomationNeedScoreDetailed input =
     (let status = trim (orEmpty (business_status input)) in
      if str_includes (toUpperCase status) ''CLOSED_PERMANENTLY'' then
        \<lparr>score = 0, reasons = [''Permanently closed (skip)''], signals = [(''closed'', 100)]\<rparr>
      else
        (let t = accumulate input;
             sc = clamp (t_score t) 0 100;
             dedupReasons = new_Set (t_reasons t);
             dedupReasons' =
               (if sc > 0 \<and> length dedupReasons = 0
                then dedupReasons @ [''Automation opportunity detected'']
                else dedupReasons)
         in \<lparr>score = sc, reasons = dedupReasons', signals = t_signals t\<rparr>))"

definition computeAutomationNeedScore :: "ScoreInput \<Rightarrow> int" where
  "computeAutomationNeedScore input = score (computeAutomationNeedScoreDetailed input)"

text \<open>
  The score filter of the orchestrator (\<open>runPlacesSearch\<close>): the candidate is skipped when
  \<open>typeof config.minScore === "number" && scored.score < config.minScore\<close>.
\<close>

definition skippedForScore :: "jsnum option \<Rightarrow> int \<Rightarrow> bool" where
  "skippedForScore minScore sc =
     (case minScore of
        None \<Rightarrow> False
      | Some NaN \<Rightarrow> False
      | Some (Num m) \<Rightarrow> of_int sc < m)"


section \<open>Website trust classifier (src/websiteVerification.ts)\<close>

text \<open>
  The platform's URL parser is a parameter: \<open>hostname_of u\<close> is \<open>new URL(u).hostname\<close>,
  and \<open>None\<close> when the constructor throws.
\<close>

type_synonym url_parser = "string \<Rightarrow> string option"

text \<open>The \<open>details\<close> field is the empty object on every path of \<open>quickVerifyWebsite\<close>.\<close>

record WebsiteVerificationResult =
  isValid :: bool
  isLikelySpam :: bool
  isSuspicious :: bool
  flags :: "string list"
  trustScore :: int

definition SPAM_DOMAINS :: "string list" where
  "SPAM_DOMAINS =
     [''bit.ly'', ''tinyurl.com'', ''goo.gl'', ''ow.ly'', ''short.link'', ''spam-domain.com'']"

definition SUSPICIOUS_KEYWORDS :: "string list" where
  "SUSPICIOUS_KEYWORDS =
     [''casino'', ''viagra'', ''porn'', ''xxx'', ''loan'', ''crypto'', ''bitcoin'', ''pharma'',
      ''click here'', ''buy now'', ''limited time'']"

definition suspiciousTLDs :: "string list" where
  "suspiciousTLDs = [''.tk'', ''.ml'', ''.ga'', ''.cf'', ''.gq'', ''.xyz'', ''.top'', ''.win'']"

definition withScheme :: "string \<Rightarrow> string" where
  "withScheme u = (if startsWith u ''http'' then u else ''https://'' @ u)"

definition extractDomain :: "url_parser \<Rightarrow> string \<Rightarrow> string" where
  "extractDomain hostname_of u =
     (case hostname_of (withScheme u) of
        None \<Rightarrow> []
      | Some h \<Rightarrow> toLowerCase h)"

definition isSpamDomain :: "string \<Rightarrow> bool" where
  "isSpamDomain domain = list_ex (\<lambda>spam. str_includes domain spam) SPAM_DOMAINS"

definition hasSuspiciousKeywords :: "string \<Rightarrow> bool" where
  "hasSuspiciousKeywords text =
     (let lower = toLowerCase text in list_ex (\<lambda>kw. str_includes lower kw) SUSPICIOUS_KEYWORDS)"

text \<open>
  The test \<open>/^\d{1,3}\.\d{1,3}\.\d{1,3}\.\d{1,3}/\<close>.  A matcher maps a string to the
  remainders it can leave, the greedy choice first; the pattern matches a prefix when
  some remainder is left at the end.
\<close>

definition isDigit :: "char \<Rightarrow> bool" where
  "isDigit c = (c \<in> set ''0123456789'')"

definition digits_1_3 :: "string \<Rightarrow> string list" where
  "digits_1_3 s = map (\<lambda>k. drop k s) (filter (\<lambda>k. k \<le> length s \<and> list_all isDigit (take k s)) [3, 2, 1])"

definition dot :: "string \<Rightarrow> string list" where
  "dot s = (case s of [] \<Rightarrow> [] | c # cs \<Rightarrow> if c = CHR ''.'' then [cs] else [])"

definition startsWithIPv4 :: "string \<Rightarrow> bool" where
  "startsWithIPv4 domain =
     (List.bind (List.bind (List.bind (List.bind (List.bind (List.bind (digits_1_3 domain)
        dot) digits_1_3) dot) digits_1_3) dot) digits_1_3 \<noteq> [])"

text \<open>\<open>s.split(d)\<close> for a one-character separator.\<close>

fun split_char :: "char \<Rightarrow> string \<Rightarrow> string list" where
  "split_char d [] = [[]]"
| "split_char d (c # cs) =
     (if c = d then [] # split_char d cs
      else (case split_char d cs of [] \<Rightarrow> [[c]] | p # ps \<Rightarrow> (c # p) # ps))"

text \<open>One penalty of the fast path: when the test holds, a flag is pushed and points go.\<close>

definition penalty :: "bool \<Rightarrow> string \<Rightarrow> int \<Rightarrow> string list \<times> int \<Rightarrow> string list \<times> int" where
  "penalty hit flag points st = (if hit then (fst st @ [flag], snd st - points) else st)"

definition noWebsite :: "string option \<Rightarrow> bool" where
  "noWebsite url = (case url of None \<Rightarrow> True | Some u \<Rightarrow> u = [] \<or> trim u = [])"

definition quickVerifyWebsite :: "url_parser \<Rightarrow> string option \<Rightarrow> WebsiteVerificationResult" where
  "quickVerifyWebsite hostname_of url =
     (if noWebsite url then
        \<lparr>isValid = False, isLikelySpam = False, isSuspicious = False,
         flags = [''No website provided''], trustScore = 0\<rparr>
      else
        (let cleanUrl = trim (orEmpty url);
             domain = extractDomain hostname_of cleanUrl
         in if domain = [] then
              \<lparr>isValid = False, isLikelySpam = False, isSuspicious = True,
               flags = [''Invalid URL format''], trustScore = 0\<rparr>
            else
              (let st0 = ([], 100);
                   st1 = penalty (isSpamDomain domain) ''Known spam/redirect domain'' 80 st0;
                   st2 = penalty (list_ex (\<lambda>tld. endsWith domain tld) suspiciousTLDs)
                           ''Suspicious TLD'' 30 st1;
                   st3 = penalty (startsWithIPv4 domain) ''IP address instead of domain'' 50 st2;
                   st4 = penalty (length (split_char (CHR ''.'') domain) > 4)
                           ''Excessive subdomains'' 20 st3;
                   st5 = penalty (hasSuspiciousKeywords cleanUrl)
                           ''Contains suspicious keywords'' 40 st4;
                   st6 = penalty (length cleanUrl > 200) ''Unusually long URL'' 15 st5;
                   ts = max 0 (min 100 (snd st6))
               in \<lparr>isValid = (ts \<ge> 50), isLikelySpam = (ts < 30), isSuspicious = (ts < 50),
                   flags = fst st6, trustScore = ts\<rparr>)))"


section \<open>The network and the pattern matcher\<close>

text \<open>
  What the outside world answers is a parameter of the model.  A request either fails
  (the promise rejects: connection error, timeout, unparseable URL) or yields a response
  with its status line, one header and a body whose reading may fail in turn.  The model
  takes the network to be a function of the request.

  Searching a page text with a regular expression is left to the engine as well: the
  fields below named after a pattern of the source give what that pattern finds in a
  text.  Tests by \<open>includes\<close>, and patterns anchored to a whole short string, are
  defined in the model itself.
\<close>

datatype body = BodyError string | Body string

datatype http_outcome =
  NetError string
| Response (status: nat) (statusText: string) (x_powered_by: "string option") (content: body)

definition ok :: "nat \<Rightarrow> bool" where
  "ok st = (200 \<le> st \<and> st \<le> 299)"

record env =
  hostname_of :: url_parser
  http_get :: "string \<Rightarrow> http_outcome"
  head_status :: "string \<Rightarrow> nat option"
  resolveMx :: "string \<Rightarrow> nat option"
  emailRegex :: "string \<Rightarrow> string list"
  mailtoRegex :: "string \<Rightarrow> string list"
  linkedinLink :: "string \<Rightarrow> string option"
  facebookLink :: "string \<Rightarrow> string option"
  instagramLink :: "string \<Rightarrow> string option"
  twitterLink :: "string \<Rightarrow> string option"
  linkedinFollowers :: "string \<Rightarrow> nat option"
  facebookFollowers :: "string \<Rightarrow> nat option"
  calendlySlug :: "string \<Rightarrow> string option"
  contactHref :: "string \<Rightarrow> string option"
  extractEmployeeCount :: "string \<Rightarrow> nat option"
  extractFoundedYear :: "string \<Rightarrow> nat option"
  extractServiceAreas :: "string \<Rightarrow> string list"


section \<open>Email discovery (src/emailDiscovery.ts)\<close>

datatype validation = valid | invalid | unknown

record EmailDiscoveryResult =
  emails :: "string list"
  patterns :: "string list"
  confidence :: "int dict"
  validationResults :: "validation dict"
  sources :: "string dict"

definition EMAIL_PATTERNS :: "string list" where
  "EMAIL_PATTERNS =
     [''info'', ''contact'', ''sales'', ''hello'', ''support'', ''admin'', ''office'',
      ''inquiries'', ''team'', ''mail'']"

text \<open>The hostname without a leading \<open>www.\<close>; \<open>None\<close> stands for \<open>null\<close>.\<close>

definition extractDomain_email :: "url_parser \<Rightarrow> string \<Rightarrow> string option" where
  "extractDomain_email parse site =
     (case parse (withScheme site) of
        None \<Rightarrow> None
      | Some h \<Rightarrow> Some (if startsWith h ''www.'' then drop 4 h else h))"

definition isLowerAlnum :: "char \<Rightarrow> bool" where
  "isLowerAlnum c = (c \<in> set lowerLetters \<or> isDigit c)"

text \<open>\<open>s.split(/\s+/)\<close>: the pieces between the maximal runs of white space.\<close>

function split_ws :: "string \<Rightarrow> string list" where
  "split_ws [] = [[]]"
| "split_ws (c # cs) =
     (if isSpace c then [] # split_ws (dropWhile isSpace cs)
      else (case split_ws cs of [] \<Rightarrow> [[c]] | p # ps \<Rightarrow> (c # p) # ps))"
  by pat_completeness auto
termination
  by (relation "measure length") (auto simp: less_Suc_eq_le length_dropWhile_le)

definition first_piece :: "string list \<Rightarrow> string" where
  "first_piece ps = (case ps of [] \<Rightarrow> [] | p # _ \<Rightarrow> p)"

text \<open>\<open>name.toLowerCase().replace(/[^a-z0-9\s]/g, "")\<close>\<close>

definition cleanLower :: "string \<Rightarrow> string" where
  "cleanLower name = filter (\<lambda>c. isLowerAlnum c \<or> isSpace c) (toLowerCase name)"

definition cleanName :: "string \<Rightarrow> string" where
  "cleanName businessName = first_piece (split_ws (trim (cleanLower businessName)))"

definition generateEmailPatterns :: "url_parser \<Rightarrow> string \<Rightarrow> string \<Rightarrow> string list" where
  "generateEmailPatterns parse businessName site =
     (case extractDomain_email parse site of
        None \<Rightarrow> []
      | Some domain \<Rightarrow>
          if domain = [] then []
          else
            (let common = map (\<lambda>prefix. prefix @ ''@'' @ domain) EMAIL_PATTERNS;
                 cn = cleanName businessName;
                 named = (if cn \<noteq> [] \<and> length cn > 2
                          then [cn @ ''@'' @ domain, ''contact@'' @ cn @ ''.com'']
                          else []);
                 industry = [''estimate@'' @ domain, ''quote@'' @ domain, ''service@'' @ domain,
                             ''booking@'' @ domain, ''appointments@'' @ domain]
             in new_Set (common @ named @ industry)))"

text \<open>
  \<open>/^[a-zA-Z0-9._%+-]+@[a-zA-Z0-9.-]+\.[a-zA-Z]{2,}$/\<close>: some \<open>@\<close> splits the address
  into a local part and a rest, and some dot splits the rest into a host and a
  top-level part, each over its class of characters.
\<close>

definition isLetter :: "char \<Rightarrow> bool" where
  "isLetter c = (c \<in> set lowerLetters \<or> c \<in> set upperLetters)"

definition isLocalChar :: "char \<Rightarrow> bool" where
  "isLocalChar c = (isLetter c \<or> isDigit c \<or> c \<in> set ''._%+-'')"

definition isHostChar :: "char \<Rightarrow> bool" where
  "isHostChar c = (isLetter c \<or> isDigit c \<or> c \<in> set ''.-'')"

definition isHostDotTld :: "string \<Rightarrow> bool" where
  "isHostDotTld d =
     list_ex (\<lambda>k. d ! k = CHR ''.'' \<and> take k d \<noteq> [] \<and> list_all isHostChar (take k d) \<and>
                  2 \<le> length (drop (Suc k) d) \<and> list_all isLetter (drop (Suc k) d))
       [0 ..< length d]"

definition isValidEmailFormat :: "string \<Rightarrow> bool" where
  "isValidEmailFormat email =
     list_ex (\<lambda>k. email ! k = CHR ''@'' \<and> take k email \<noteq> [] \<and>
                  list_all isLocalChar (take k email) \<and> isHostDotTld (drop (Suc k) email))
       [0 ..< length email]"

text \<open>\<open>resolveMx\<close> answers with the number of records, or fails.\<close>

definition checkMXRecords :: "env \<Rightarrow> string \<Rightarrow> bool" where
  "checkMXRecords e domain = (case resolveMx e domain of None \<Rightarrow> False | Some n \<Rightarrow> n > 0)"

definition isJunk :: "string \<Rightarrow> bool" where
  "isJunk email =
     (let lower = toLowerCase email in
      str_includes lower ''example.com'' \<or> str_includes lower ''test.com'' \<or>
      str_includes lower ''sample.com'' \<or> str_includes lower ''domain.com'' \<or>
      str_includes lower ''yoursite.com'' \<or> str_includes lower ''yourdomain.com'' \<or>
      str_includes lower ''noreply'' \<or> str_includes lower ''no-reply'' \<or>
      str_includes lower ''mailer-daemon'' \<or> str_includes lower ''postmaster'' \<or>
      str_includes lower ''.png'' \<or> str_includes lower ''.jpg'' \<or> endsWith lower ''.gif'')"

text \<open>
  The addresses matched in the page text, the junk filtered out, then the targets of
  the \<open>mailto:\<close> links; one flat list without duplicates.  Any failure gives the list
  collected so far, which is empty.
\<close>

definition scrapeEmailsFromWebsite :: "env \<Rightarrow> string \<Rightarrow> string list" where
  "scrapeEmailsFromWebsite e site =
     (case http_get e (withScheme site) of
        NetError msg \<Rightarrow> []
      | Response st txt hdr b \<Rightarrow>
          if \<not> ok st then []
          else (case b of
                  BodyError msg \<Rightarrow> []
                | Body html \<Rightarrow>
                    new_Set (filter (\<lambda>email. \<not> isJunk email) (emailRegex e html)
                             @ mailtoRegex e html)))"

text \<open>\<open>source\<close> is \<open>sources[email]\<close>: \<open>None\<close> when the key is absent.\<close>

definition scoreEmailConfidence ::
    "string \<Rightarrow> string option \<Rightarrow> validation \<Rightarrow> string \<Rightarrow> int" where
  "scoreEmailConfidence email source validationResult domain =
     (let s0 = 50;
          s1 = (if source = Some ''scraped-mailto'' then s0 + 30
                else if source = Some ''scraped-html'' then s0 + 20
                else if source = Some ''pattern-common'' then s0 + 10
                else s0);
          s2 = (if validationResult = valid then s1 + 20
                else if validationResult = invalid then s1 - 40
                else s1);
          prefix = toLowerCase (first_piece (split_char (CHR ''@'') email));
          s3 = (if prefix \<in> set [''info'', ''contact'', ''hello'', ''sales''] then s2 + 15
                else if prefix \<in> set [''support'', ''admin'', ''team''] then s2 + 10
                else if prefix \<in> set [''estimate'', ''quote'', ''service''] then s2 + 8
                else s2);
          s4 = (if str_includes email domain then s3 + 10 else s3)
      in max 0 (min 100 s4))"

text \<open>Steps 1 and 2: the set \<open>allEmails\<close> and the dictionary \<open>sources\<close>.\<close>

definition addScraped :: "string list \<times> string dict \<Rightarrow> string \<Rightarrow> string list \<times> string dict" where
  "addScraped st email =
     (set_add (fst st) (toLowerCase email), assign (toLowerCase email) ''scraped-html'' (snd st))"

definition addPattern :: "string list \<times> string dict \<Rightarrow> string \<Rightarrow> string list \<times> string dict" where
  "addPattern st email =
     (set_add (fst st) (toLowerCase email),
      (case map_of (snd st) (toLowerCase email) of
         None \<Rightarrow> assign (toLowerCase email) ''pattern-common'' (snd st)
       | Some src \<Rightarrow> if src = [] then assign (toLowerCase email) ''pattern-common'' (snd st)
                     else snd st))"

definition collectEmails :: "env \<Rightarrow> string \<Rightarrow> string \<Rightarrow> string list \<times> string dict" where
  "collectEmails e businessName site =
     foldl addPattern
       (foldl addScraped ([], []) (scrapeEmailsFromWebsite e site))
       (generateEmailPatterns (hostname_of e) businessName site)"

text \<open>Step 3: one turn of the validation loop, on the two dictionaries it fills.\<close>

definition validateOne ::
    "bool \<Rightarrow> string \<Rightarrow> string dict \<Rightarrow> validation dict \<times> int dict \<Rightarrow> string
      \<Rightarrow> validation dict \<times> int dict" where
  "validateOne hasMX domain srcs st email =
     (if \<not> isValidEmailFormat email then
        (assign email invalid (fst st), assign email 0 (snd st))
      else
        (let v = (if \<not> hasMX then invalid else unknown);
             vr = assign email v (fst st)
         in (vr, assign email (scoreEmailConfidence email (map_of srcs email) v domain) (snd st))))"

text \<open>\<open>confidence[e] || 0\<close>\<close>

definition confidenceOf :: "int dict \<Rightarrow> string \<Rightarrow> int" where
  "confidenceOf conf email = (case map_of conf email of None \<Rightarrow> 0 | Some c \<Rightarrow> c)"

text \<open>
  \<open>Array.prototype.sort\<close> is stable; with the comparator \<open>key(b) - key(a)\<close> it is the
  stable sort by descending key.
\<close>

definition sortDescending :: "('a \<Rightarrow> int) \<Rightarrow> 'a list \<Rightarrow> 'a list" where
  "sortDescending key xs = sort_key (\<lambda>x. - key x) xs"

text \<open>The validation loop over \<open>emailArray\<close>, from empty dictionaries.\<close>

definition validateAll ::
    "bool \<Rightarrow> string \<Rightarrow> string dict \<Rightarrow> string list \<Rightarrow> validation dict \<times> int dict" where
  "validateAll hasMX domain srcs emailArray =
     foldl (validateOne hasMX domain srcs) ([], []) emailArray"

text \<open>The addresses not marked invalid, by descending confidence.\<close>

definition selectValid :: "validation dict \<Rightarrow> int dict \<Rightarrow> string list \<Rightarrow> string list" where
  "selectValid vr conf emailArray =
     sortDescending (confidenceOf conf)
       (filter (\<lambda>email. map_of vr email \<noteq> Some invalid) emailArray)"

definition discoverEmails :: "env \<Rightarrow> string \<Rightarrow> string \<Rightarrow> EmailDiscoveryResult" where
  "discoverEmails e businessName site =
     (case extractDomain_email (hostname_of e) site of
        None \<Rightarrow> \<lparr>emails = [], patterns = [], confidence = [], validationResults = [], sources = []\<rparr>
      | Some domain \<Rightarrow>
          if domain = [] then
            \<lparr>emails = [], patterns = [], confidence = [], validationResults = [], sources = []\<rparr>
          else
            (let (emailArray, srcs) = collectEmails e businessName site;
                 hasMX = checkMXRecords e domain;
                 (vr, conf) = validateAll hasMX domain srcs emailArray
             in \<lparr>emails = selectValid vr conf emailArray,
                 patterns = generateEmailPatterns (hostname_of e) businessName site,
                 confidence = conf, validationResults = vr, sources = srcs\<rparr>))"

definition getBestEmail :: "EmailDiscoveryResult \<Rightarrow> string option" where
  "getBestEmail result = (case emails result of [] \<Rightarrow> None | email # _ \<Rightarrow> Some email)"

definition getEmailsByConfidence :: "EmailDiscoveryResult \<Rightarrow> int \<Rightarrow> string list" where
  "getEmailsByConfidence result minConfidence =
     filter (\<lambda>email. confidenceOf (confidence result) email \<ge> minConfidence) (emails result)"


text \<open>\<open>email.split("@")[1]\<close>; \<open>None\<close> stands for \<open>undefined\<close>.\<close>

definition domainPart :: "string \<Rightarrow> string option" where
  "domainPart email = (case split_char (CHR ''@'') email of _ # d # _ \<Rightarrow> Some d | _ \<Rightarrow> None)"

definition validateEmailSMTP :: "env \<Rightarrow> string \<Rightarrow> validation" where
  "validateEmailSMTP e email =
     (if \<not> isValidEmailFormat email then invalid
      else if \<not> checkMXRecords e (orEmpty (domainPart email)) then invalid
      else unknown)"


section \<open>Social profile verifier (src/socialVerifier.ts)\<close>

datatype platform = linkedin | facebook | instagram | twitter | yelp | bbb

text \<open>
  Of the metrics only \<open>followers\<close> is ever filled in.  \<open>metrics = None\<close> stands for a
  missing or \<open>null\<close> field, \<open>Some None\<close> for an object whose \<open>followers\<close> is undefined.
\<close>

record VerifiedSocialProfile =
  url :: string
  platform :: platform
  exists :: bool
  p_confidence :: int
  metrics :: "nat option option"

record SocialSummary =
  totalFound :: nat
  platforms :: "platform list"
  bestProfile :: "string option"

record SocialVerificationResult =
  profiles :: "VerifiedSocialProfile list"
  summary :: SocialSummary

text \<open>\<open>s.replace(/\s+/g, sep)\<close>: every maximal run of white space becomes \<open>sep\<close>.\<close>

fun join :: "string \<Rightarrow> string list \<Rightarrow> string" where
  "join sep [] = []"
| "join sep [p] = p"
| "join sep (p # q # ps) = p @ sep @ join sep (q # ps)"

definition replace_ws :: "string \<Rightarrow> string \<Rightarrow> string" where
  "replace_ws sep s = join sep (split_ws s)"

definition firstWord :: "string \<Rightarrow> string" where
  "firstWord s = first_piece (split_ws s)"

text \<open>
  \<open>s.replace(/\s+(llc|inc|corp|ltd|limited|company|co|group)\s*$/i, "")\<close>: the leftmost
  position from which white space, one of the words and white space up to the end
  follow; the string is cut there.
\<close>

definition LEGAL_SUFFIXES :: "string list" where
  "LEGAL_SUFFIXES =
     [''llc'', ''inc'', ''corp'', ''ltd'', ''limited'', ''company'', ''co'', ''group'']"

definition suffixAt :: "string \<Rightarrow> bool" where
  "suffixAt r =
     (case r of
        [] \<Rightarrow> False
      | c # _ \<Rightarrow>
          isSpace c \<and>
          (let a = dropWhile isSpace r in
           list_ex (\<lambda>w. startsWith (toLowerCase a) w \<and> list_all isSpace (drop (length w) a))
             LEGAL_SUFFIXES))"

fun stripLegalSuffix :: "string \<Rightarrow> string" where
  "stripLegalSuffix [] = []"
| "stripLegalSuffix (c # cs) = (if suffixAt (c # cs) then [] else c # stripLegalSuffix cs)"

definition generateLinkedInUrls :: "string \<Rightarrow> string list" where
  "generateLinkedInUrls businessName =
     (let cn = cleanLower businessName;
          slug1 = replace_ws ''-'' cn;
          fw = firstWord cn;
          slug3 = replace_ws [] cn;
          withoutSuffixes = replace_ws ''-'' (stripLegalSuffix cn)
      in new_Set
           ([''https://www.linkedin.com/company/'' @ slug1]
            @ (if fw \<noteq> [] \<and> length fw > 2 then [''https://www.linkedin.com/company/'' @ fw]
               else [])
            @ [''https://www.linkedin.com/company/'' @ slug3,
               ''https://www.linkedin.com/company/'' @ withoutSuffixes]))"

definition generateFacebookUrls :: "string \<Rightarrow> string list" where
  "generateFacebookUrls businessName =
     (let cn = cleanLower businessName;
          slug1 = replace_ws [] cn;
          slug2 = replace_ws ''.'' cn;
          fw = firstWord cn
      in new_Set
           ([''https://www.facebook.com/'' @ slug1, ''https://www.facebook.com/'' @ slug2]
            @ (if fw \<noteq> [] \<and> length fw > 2 then [''https://www.facebook.com/'' @ fw] else [])))"

definition generateInstagramUrls :: "string \<Rightarrow> string list" where
  "generateInstagramUrls businessName =
     (let cn = cleanLower businessName;
          slug1 = replace_ws ''_'' cn;
          slug2 = replace_ws [] cn;
          fw = firstWord cn
      in new_Set
           ([''https://www.instagram.com/'' @ slug1 @ ''/'',
             ''https://www.instagram.com/'' @ slug2 @ ''/'']
            @ (if fw \<noteq> [] \<and> length fw > 2 then [''https://www.instagram.com/'' @ fw @ ''/'']
               else [])))"

text \<open>The existence probe: one \<open>HEAD\<close> request; a failed request counts as absent.\<close>

definition checkUrlExists :: "env \<Rightarrow> string \<Rightarrow> bool" where
  "checkUrlExists e u = (case head_status e u of None \<Rightarrow> False | Some st \<Rightarrow> ok st)"

definition scrapeLinkedInMetrics :: "env \<Rightarrow> string \<Rightarrow> nat option option" where
  "scrapeLinkedInMetrics e u =
     (case http_get e u of
        NetError msg \<Rightarrow> None
      | Response st txt hdr b \<Rightarrow>
          if \<not> ok st then None
          else (case b of BodyError msg \<Rightarrow> None | Body html \<Rightarrow> Some (linkedinFollowers e html)))"

definition scrapeFacebookMetrics :: "env \<Rightarrow> string \<Rightarrow> nat option option" where
  "scrapeFacebookMetrics e u =
     (case http_get e u of
        NetError msg \<Rightarrow> None
      | Response st txt hdr b \<Rightarrow>
          if \<not> ok st then None
          else (case b of BodyError msg \<Rightarrow> None | Body html \<Rightarrow> Some (facebookFollowers e html)))"

text \<open>
  The existence probes of a run are logged, each with the platform whose verifier
  issued it.  The loop of the three verifiers: probe the guessed URLs in order and stop
  at the first that exists.
\<close>

type_synonym probe_log = "(platform \<times> string) list"

fun probeInOrder :: "env \<Rightarrow> platform \<Rightarrow> string list \<Rightarrow> probe_log \<Rightarrow> string option \<times> probe_log" where
  "probeInOrder e p [] probes = (None, probes)"
| "probeInOrder e p (u # us) probes =
     (if checkUrlExists e u then (Some u, probes @ [(p, u)])
      else probeInOrder e p us (probes @ [(p, u)]))"

definition verifyLinkedIn ::
    "env \<Rightarrow> string \<Rightarrow> probe_log \<Rightarrow> VerifiedSocialProfile option \<times> probe_log" where
  "verifyLinkedIn e businessName probes =
     (case probeInOrder e linkedin (generateLinkedInUrls businessName) probes of
        (None, probes') \<Rightarrow> (None, probes')
      | (Some u, probes') \<Rightarrow>
          (Some \<lparr>url = u, platform = linkedin, exists = True, p_confidence = 85,
                 metrics = scrapeLinkedInMetrics e u\<rparr>, probes'))"

definition verifyFacebook ::
    "env \<Rightarrow> string \<Rightarrow> probe_log \<Rightarrow> VerifiedSocialProfile option \<times> probe_log" where
  "verifyFacebook e businessName probes =
     (case probeInOrder e facebook (generateFacebookUrls businessName) probes of
        (None, probes') \<Rightarrow> (None, probes')
      | (Some u, probes') \<Rightarrow>
          (Some \<lparr>url = u, platform = facebook, exists = True, p_confidence = 80,
                 metrics = scrapeFacebookMetrics e u\<rparr>, probes'))"

definition verifyInstagram ::
    "env \<Rightarrow> string \<Rightarrow> probe_log \<Rightarrow> VerifiedSocialProfile option \<times> probe_log" where
  "verifyInstagram e businessName probes =
     (case probeInOrder e instagram (generateInstagramUrls businessName) probes of
        (None, probes') \<Rightarrow> (None, probes')
      | (Some u, probes') \<Rightarrow>
          (Some \<lparr>url = u, platform = instagram, exists = True, p_confidence = 75,
                 metrics = None\<rparr>, probes'))"

definition linked :: "platform \<Rightarrow> string option \<Rightarrow> VerifiedSocialProfile list" where
  "linked p m =
     (case m of
        None \<Rightarrow> []
      | Some u \<Rightarrow> [\<lparr>url = u, platform = p, exists = True, p_confidence = 95, metrics = None\<rparr>])"

definition extractSocialsFromWebsite :: "env \<Rightarrow> string \<Rightarrow> VerifiedSocialProfile list" where
  "extractSocialsFromWebsite e site =
     (case http_get e (withScheme site) of
        NetError msg \<Rightarrow> []
      | Response st txt hdr b \<Rightarrow>
          if \<not> ok st then []
          else (case b of
                  BodyError msg \<Rightarrow> []
                | Body html \<Rightarrow>
                    linked linkedin (linkedinLink e html) @ linked facebook (facebookLink e html) @
                    linked instagram (instagramLink e html) @ linked twitter (twitterLink e html)))"

definition found :: "platform \<Rightarrow> VerifiedSocialProfile list \<Rightarrow> bool" where
  "found p ps = list_ex (\<lambda>q. platform q = p) ps"

text \<open>One of the steps 2 to 4: the verifier runs only if the platform is not yet found.\<close>

definition unlessFound ::
    "platform \<Rightarrow> (probe_log \<Rightarrow> VerifiedSocialProfile option \<times> probe_log)
      \<Rightarrow> VerifiedSocialProfile list \<times> probe_log \<Rightarrow> VerifiedSocialProfile list \<times> probe_log" where
  "unlessFound p verifier st =
     (if found p (fst st) then st
      else (case verifier (snd st) of
              (None, probes') \<Rightarrow> (fst st, probes')
            | (Some q, probes') \<Rightarrow> (fst st @ [q], probes')))"

definition websiteProfiles :: "env \<Rightarrow> string option \<Rightarrow> VerifiedSocialProfile list" where
  "websiteProfiles e site =
     (case site of
        None \<Rightarrow> []
      | Some w \<Rightarrow> if w = [] then [] else extractSocialsFromWebsite e w)"

definition gatherProfiles ::
    "env \<Rightarrow> string \<Rightarrow> string option \<Rightarrow> VerifiedSocialProfile list \<times> probe_log" where
  "gatherProfiles e businessName site =
     unlessFound instagram (verifyInstagram e businessName)
       (unlessFound facebook (verifyFacebook e businessName)
         (unlessFound linkedin (verifyLinkedIn e businessName)
           (websiteProfiles e site, [])))"

text \<open>The result of a run, and the log of the existence probes it made.\<close>

definition verifySocialProfiles ::
    "env \<Rightarrow> string \<Rightarrow> string option \<Rightarrow> SocialVerificationResult \<times> probe_log" where
  "verifySocialProfiles e businessName site =
     (let (ps, probes) = gatherProfiles e businessName site;
          sorted_ps = sortDescending p_confidence ps
      in (\<lparr>profiles = sorted_ps,
           summary = \<lparr>totalFound = length sorted_ps,
                      platforms = map platform sorted_ps,
                      bestProfile = (case sorted_ps of [] \<Rightarrow> None | q # _ \<Rightarrow> Some (url q))\<rparr>\<rparr>,
          probes))"

definition probeCount :: "platform \<Rightarrow> probe_log \<Rightarrow> nat" where
  "probeCount p probes = length (filter (\<lambda>entry. fst entry = p) probes)"


section \<open>Website intelligence extractor (src/websiteIntelligence.ts)\<close>

text \<open>Optional fields are options: \<open>None\<close> for a field that is absent or undefined.\<close>

record TechnologyStack =
  cms :: "string option"
  analytics :: "string list option"
  chatWidgets :: "string list option"
  bookingSystems :: "string list option"

record ContactMethods =
  hasContactForm :: bool
  hasLiveChat :: bool
  hasBookingSystem :: bool
  hasPhoneClick :: bool
  contactFormUrl :: "string option"
  bookingUrl :: "string option"

record BusinessIntelligence =
  employeeCount :: "nat option"
  foundedYear :: "nat option"
  certifications :: "string list option"
  serviceAreas :: "string list option"

record WebsiteIntelligenceResult =
  technology :: TechnologyStack
  contactMethods :: ContactMethods
  businessIntel :: BusinessIntelligence
  completeness :: nat
  rawFindings :: "string list"

definition detectCMS :: "string \<Rightarrow> string option \<Rightarrow> string option" where
  "detectCMS html powered_by =
     (let lower = toLowerCase html in
      if str_includes lower ''wp-content'' \<or> str_includes lower ''wordpress'' then Some ''WordPress''
      else if str_includes lower ''shopify'' \<or> str_includes lower ''cdn.shopify.com''
        then Some ''Shopify''
      else if str_includes lower ''wixsite'' \<or> str_includes lower ''wix.com'' then Some ''Wix''
      else if str_includes lower ''squarespace'' then Some ''Squarespace''
      else if str_includes lower ''webflow'' then Some ''Webflow''
      else if str_includes lower ''weebly'' then Some ''Weebly''
      else if str_includes lower ''godaddy'' then Some ''GoDaddy Website Builder''
      else (case powered_by of
              None \<Rightarrow> None
            | Some h \<Rightarrow>
                (let serverHeader = toLowerCase h in
                 if serverHeader = [] then None
                 else if str_includes serverHeader ''wordpress'' then Some ''WordPress''
                 else if str_includes serverHeader ''wix'' then Some ''Wix''
                 else None)))"

text \<open>A detector that pushes a label when its test holds.\<close>

definition pushIf :: "bool \<Rightarrow> 'a \<Rightarrow> 'a list \<Rightarrow> 'a list" where
  "pushIf hit x xs = (if hit then xs @ [x] else xs)"

definition detectAnalytics :: "string \<Rightarrow> string list" where
  "detectAnalytics html =
     (let lower = toLowerCase html in
      pushIf (str_includes lower ''mixpanel'') ''Mixpanel''
       (pushIf (str_includes lower ''hotjar'') ''Hotjar''
         (pushIf (str_includes lower ''facebook.com/tr'' \<or> str_includes lower ''fbevents'')
            ''Facebook Pixel''
           (pushIf (str_includes lower ''google-analytics'' \<or>
                    str_includes lower ''googletagmanager'') ''Google Analytics'' []))))"

definition detectChatWidgets :: "string \<Rightarrow> string list" where
  "detectChatWidgets html =
     (let lower = toLowerCase html in
      pushIf (str_includes lower ''crisp.chat'') ''Crisp''
       (pushIf (str_includes lower ''zendesk'' \<or> str_includes lower ''zdassets'') ''Zendesk Chat''
         (pushIf (str_includes lower ''livechat'') ''LiveChat''
           (pushIf (str_includes lower ''tawk.to'' \<or> str_includes lower ''tawkto'') ''Tawk.to''
             (pushIf (str_includes lower ''drift.com'' \<or> str_includes lower ''js.driftt.com'')
                ''Drift''
               (pushIf (str_includes lower ''intercom'' \<or> str_includes lower ''intercomcdn'')
                  ''Intercom'' []))))))"

text \<open>The systems found, and the URLs: at most the Calendly one.\<close>

definition detectBookingSystems :: "env \<Rightarrow> string \<Rightarrow> string list \<times> string list" where
  "detectBookingSystems e html =
     (let lower = toLowerCase html;
          calendly = str_includes lower ''calendly'';
          urls = (if calendly
                  then (case calendlySlug e html of
                          None \<Rightarrow> []
                        | Some slug \<Rightarrow> [''https://calendly.com/'' @ slug])
                  else [])
      in (pushIf (str_includes lower ''simplybook'') ''SimplyBook.me''
           (pushIf (str_includes lower ''setmore'') ''Setmore''
             (pushIf (str_includes lower ''scheduleonce'' \<or> str_includes lower ''oncehub'')
                ''ScheduleOnce''
               (pushIf (str_includes lower ''squareup.com'' \<and> str_includes lower ''appointments'')
                  ''Square Appointments''
                 (pushIf (str_includes lower ''acuityscheduling'') ''Acuity Scheduling''
                   (pushIf calendly ''Calendly'' []))))),
          urls))"

definition detectContactForm :: "env \<Rightarrow> string \<Rightarrow> bool \<times> string option" where
  "detectContactForm e html =
     (let lower = toLowerCase html in
      (str_includes lower ''<form'' \<or> str_includes lower ''contact'' \<or>
       str_includes lower ''get in touch'' \<or> str_includes lower ''send message'',
       contactHref e html))"

definition commonCerts :: "string list" where
  "commonCerts =
     [''BBB Accredited'', ''Licensed & Insured'', ''Certified'', ''ISO Certified'', ''Insured'',
      ''Bonded'', ''Veteran Owned'', ''Woman Owned'', ''Minority Owned'', ''Green Certified'',
      ''Energy Star Partner'']"

definition extractCertifications :: "string \<Rightarrow> string list" where
  "extractCertifications html =
     (let lower = toLowerCase html in
      filter (\<lambda>cert. str_includes lower (toLowerCase cert)) commonCerts)"

text \<open>Decimal numerals, and \<open>xs.join(", ")\<close> through \<open>join\<close>.\<close>

definition digitChar :: "nat \<Rightarrow> char" where
  "digitChar d = ''0123456789'' ! d"

function show_nat :: "nat \<Rightarrow> string" where
  "show_nat n = (if n < 10 then [digitChar n] else show_nat (n div 10) @ [digitChar (n mod 10)])"
  by pat_completeness auto
termination
  by (relation "measure id") auto

text \<open>\<open>Math.round(html.length / 1024)\<close>\<close>

definition roundKB :: "nat \<Rightarrow> nat" where
  "roundKB len = (len + 512) div 1024"

text \<open>A number is truthy when it is present and not zero; a list when it is not empty.\<close>

definition truthy :: "nat option \<Rightarrow> bool" where
  "truthy n = (case n of None \<Rightarrow> False | Some k \<Rightarrow> k \<noteq> 0)"

definition valueOf :: "nat option \<Rightarrow> nat" where
  "valueOf n = (case n of None \<Rightarrow> 0 | Some k \<Rightarrow> k)"

definition createEmptyResult :: "string list \<Rightarrow> WebsiteIntelligenceResult" where
  "createEmptyResult findings =
     \<lparr>technology = \<lparr>cms = None, analytics = None, chatWidgets = None, bookingSystems = None\<rparr>,
      contactMethods = \<lparr>hasContactForm = False, hasLiveChat = False, hasBookingSystem = False,
                        hasPhoneClick = False, contactFormUrl = None, bookingUrl = None\<rparr>,
      businessIntel = \<lparr>employeeCount = None, foundedYear = None, certifications = None,
                       serviceAreas = None\<rparr>,
      completeness = 0,
      rawFindings = findings\<rparr>"

text \<open>The analysis of a fetched page: everything after \<open>await response.text()\<close>.\<close>

definition analysePage ::
    "env \<Rightarrow> string option \<Rightarrow> string \<Rightarrow> string list \<Rightarrow> WebsiteIntelligenceResult" where
  "analysePage e powered_by html findings0 =
     (let f1 = findings0 @ [''Fetched '' @ show_nat (roundKB (length html)) @ ''KB of HTML''];
          cms_found = detectCMS html powered_by;
          analytics_found = detectAnalytics html;
          widgets = detectChatWidgets html;
          booking = detectBookingSystems e html;
          f2 = (case cms_found of None \<Rightarrow> f1 | Some c \<Rightarrow> if c = [] then f1 else f1 @ [''CMS: '' @ c]);
          f3 = pushIf (analytics_found \<noteq> []) (''Analytics: '' @ join '', '' analytics_found) f2;
          f4 = pushIf (widgets \<noteq> []) (''Chat: '' @ join '', '' widgets) f3;
          f5 = pushIf (fst booking \<noteq> []) (''Booking: '' @ join '', '' (fst booking)) f4;
          contactForm = detectContactForm e html;
          liveChat = (widgets \<noteq> []);
          bookingSystem = (fst booking \<noteq> []);
          phoneClick = str_includes (toLowerCase html) ''tel:'';
          employees = extractEmployeeCount e html;
          founded = extractFoundedYear e html;
          certs = extractCertifications html;
          areas = extractServiceAreas e html;
          f6 = pushIf (truthy employees) (''Employees: ~'' @ show_nat (valueOf employees)) f5;
          f7 = pushIf (truthy founded) (''Founded: '' @ show_nat (valueOf founded)) f6;
          f8 = pushIf (certs \<noteq> []) (''Certs: '' @ join '', '' certs) f7;
          f9 = pushIf (areas \<noteq> [])
                 (''Service areas: '' @ show_nat (length areas) @ '' found'') f8;
          total =
            (if cms_found \<noteq> None \<and> cms_found \<noteq> Some [] then 15 else 0) +
            (if analytics_found \<noteq> [] then 10 else 0) +
            (if fst contactForm then 15 else 0) +
            (if liveChat then 10 else 0) +
            (if bookingSystem then 15 else 0) +
            (if truthy employees then 15 else 0) +
            (if truthy founded then 10 else 0) +
            (if certs \<noteq> [] then 10 else 0)
      in \<lparr>technology = \<lparr>cms = cms_found, analytics = Some analytics_found,
                         chatWidgets = Some widgets, bookingSystems = Some (fst booking)\<rparr>,
          contactMethods = \<lparr>hasContactForm = fst contactForm, hasLiveChat = liveChat,
                            hasBookingSystem = bookingSystem, hasPhoneClick = phoneClick,
                            contactFormUrl = snd contactForm,
                            bookingUrl = (case snd booking of [] \<Rightarrow> None | u # _ \<Rightarrow> Some u)\<rparr>,
          businessIntel = \<lparr>employeeCount = employees, foundedYear = founded,
                           certifications = Some certs, serviceAreas = Some areas\<rparr>,
          completeness = min 100 total,
          rawFindings = f9\<rparr>)"

text \<open>
  A computation of the source either returns a value or throws an error with a
  message.  The body of the \<open>try\<close> block yields the findings pushed so far together
  with its outcome; a rejected request and an unreadable body are its throws.
\<close>

datatype 'a outcome = Thrown string | Returned 'a

definition tryBlock :: "env \<Rightarrow> string \<Rightarrow> string list \<times> WebsiteIntelligenceResult outcome" where
  "tryBlock e site =
     (let u = withScheme site;
          f0 = [''Fetching '' @ u @ ''...'']
      in case http_get e u of
           NetError msg \<Rightarrow> (f0, Thrown msg)
         | Response st txt powered_by b \<Rightarrow>
             if \<not> ok st then
               (let f1 = f0 @ [''HTTP '' @ show_nat st @ '': '' @ txt]
                in (f1, Returned (createEmptyResult f1)))
             else
               (case b of
                  BodyError msg \<Rightarrow> (f0, Thrown msg)
                | Body html \<Rightarrow>
                    (let r = analysePage e powered_by html f0 in (rawFindings r, Returned r))))"

text \<open>The \<open>catch\<close> clause turns every throw of the block into the empty result.\<close>

definition extractWebsiteIntelligence :: "env \<Rightarrow> string \<Rightarrow> WebsiteIntelligenceResult outcome" where
  "extractWebsiteIntelligence e site =
     (case tryBlock e site of
        (findings, Thrown msg) \<Rightarrow> Returned (createEmptyResult (findings @ [''Error: '' @ msg]))
      | (findings, Returned r) \<Rightarrow> Returned r)"


section \<open>A sample environment\<close>

text \<open>
  A one-page world for concrete runs: the site \<open>a.io\<close> answers 200 with a page that
  holds one \<open>mailto:\<close> link, the domain has one mail exchanger, and no other request
  is answered.  The URL parser knows that site and one link of a URL shortener.
\<close>

definition sample_env :: env where
  "sample_env =
     \<lparr>hostname_of = (\<lambda>u. if u = ''https://a.io'' then Some ''a.io''
                          else if u = ''http://bit.ly/xyz'' then Some ''bit.ly''
                          else None),
      http_get = (\<lambda>u. if u = ''https://a.io''
                       then Response 200 ''OK'' None (Body ''mailto:Bo@a.io'')
                       else NetError ''fetch failed''),
      head_status = (\<lambda>u. None),
      resolveMx = (\<lambda>d. if d = ''a.io'' then Some 1 else None),
      emailRegex = (\<lambda>h. if h = ''mailto:Bo@a.io'' then [''Bo@a.io''] else []),
      mailtoRegex = (\<lambda>h. if h = ''mailto:Bo@a.io'' then [''Bo@a.io''] else []),
      linkedinLink = (\<lambda>h. None), facebookLink = (\<lambda>h. None),
      instagramLink = (\<lambda>h. None), twitterLink = (\<lambda>h. None),
      linkedinFollowers = (\<lambda>h. None), facebookFollowers = (\<lambda>h. None),
      calendlySlug = (\<lambda>h. None), contactHref = (\<lambda>h. None),
      extractEmployeeCount = (\<lambda>h. None), extractFoundedYear = (\<lambda>h. None),
      extractServiceAreas = (\<lambda>h. [])\<rparr>"


text \<open>The same world, except that the page links the company's LinkedIn profile.\<close>

definition sample_env_linked :: env where
  "sample_env_linked =
     sample_env\<lparr>linkedinLink := (\<lambda>h. Some ''https://www.linkedin.com/company/bo'')\<rparr>"



section \<open>Auxiliary lemmas\<close>

subsection \<open>Substrings, trimming and case mapping\<close>


lemma str_includes_iff: "str_includes s sub \<longleftrightarrow> (\<exists>p q. s = p @ sub @ q)"
proof (induction s)
  case Nil
  then show ?case by auto
next
  case (Cons c cs)
  have "startsWith (c # cs) sub \<longleftrightarrow> (\<exists>q. c # cs = sub @ q)"
    unfolding startsWith_def
    by (metis append_eq_conv_conj append_take_drop_id)
  moreover have "(\<exists>p q. c # cs = p @ sub @ q) \<longleftrightarrow> (\<exists>q. c # cs = sub @ q) \<or> (\<exists>p q. cs = p @ sub @ q)"
  proof
    assume "\<exists>p q. c # cs = p @ sub @ q"
    then obtain p q where pq: "c # cs = p @ sub @ q" by blast
    show "(\<exists>q. c # cs = sub @ q) \<or> (\<exists>p q. cs = p @ sub @ q)"
    proof (cases p)
      case Nil
      with pq show ?thesis by auto
    next
      case (Cons a p')
      with pq have "cs = p' @ sub @ q" by simp
      then show ?thesis by blast
    qed
  next
    assume "(\<exists>q. c # cs = sub @ q) \<or> (\<exists>p q. cs = p @ sub @ q)"
    then show "\<exists>p q. c # cs = p @ sub @ q"
    proof
      assume "\<exists>q. c # cs = sub @ q"
      then obtain q where "c # cs = [] @ sub @ q" by auto
      then show ?thesis by blast
    next
      assume "\<exists>p q. cs = p @ sub @ q"
      then obtain p q where "c # cs = (c # p) @ sub @ q" by auto
      then show ?thesis by blast
    qed
  qed
  ultimately show ?case using Cons.IH by simp
qed

lemma str_includes_rev: "str_includes (rev s) (rev sub) \<longleftrightarrow> str_includes s sub"
proof -
  have "(\<exists>p q. rev s = p @ rev sub @ q) \<longleftrightarrow> (\<exists>p q. s = p @ sub @ q)"
  proof
    assume "\<exists>p q. rev s = p @ rev sub @ q"
    then obtain p q where "rev s = p @ rev sub @ q" by blast
    then have "s = rev q @ sub @ rev p" by (metis append.assoc rev_append rev_rev_ident)
    then show "\<exists>p q. s = p @ sub @ q" by blast
  next
    assume "\<exists>p q. s = p @ sub @ q"
    then obtain p q where "s = p @ sub @ q" by blast
    then have "rev s = rev q @ rev sub @ rev p" by simp
    then show "\<exists>p q. rev s = p @ rev sub @ q" by blast
  qed
  then show ?thesis by (simp add: str_includes_iff)
qed

lemma str_includes_dropWhile:
  "str_includes s sub \<Longrightarrow> sub \<noteq> [] \<Longrightarrow> \<not> isSpace (hd sub) \<Longrightarrow> str_includes (dropWhile isSpace s) sub"
proof (induction s)
  case Nil
  then show ?case by simp
next
  case (Cons c cs)
  show ?case
  proof (cases "isSpace c")
    case True
    have "\<not> startsWith (c # cs) sub"
    proof
      assume "startsWith (c # cs) sub"
      then have "hd sub = c" using Cons.prems(2) by (cases sub) (auto simp: startsWith_def)
      with True Cons.prems(3) show False by simp
    qed
    with Cons.prems(1) have "str_includes cs sub" by simp
    with Cons.IH Cons.prems True show ?thesis by simp
  next
    case False
    with Cons.prems(1) show ?thesis by simp
  qed
qed

lemma str_includes_trim:
  assumes "str_includes s sub" "sub \<noteq> []" "\<not> isSpace (hd sub)" "\<not> isSpace (last sub)"
  shows "str_includes (trim s) sub"
proof -
  have 1: "str_includes (dropWhile isSpace s) sub"
    using assms by (simp add: str_includes_dropWhile)
  then have "str_includes (rev (dropWhile isSpace s)) (rev sub)"
    by (simp add: str_includes_rev)
  moreover have "rev sub \<noteq> []" "\<not> isSpace (hd (rev sub))"
    using assms by (simp_all add: hd_rev)
  ultimately have "str_includes (dropWhile isSpace (rev (dropWhile isSpace s))) (rev sub)"
    by (rule str_includes_dropWhile)
  then have "str_includes (rev (dropWhile isSpace (rev (dropWhile isSpace s)))) (rev (rev sub))"
    by (simp only: str_includes_rev)
  then show ?thesis
    unfolding trim_def by simp
qed

lemma toUpperChar_cases: "toUpperChar c = c \<or> (c \<in> set lowerLetters \<and> toUpperChar c \<in> set upperLetters)"
proof (cases "map_of (zip lowerLetters upperLetters) c")
  case None
  then show ?thesis by (simp add: toUpperChar_def)
next
  case (Some u)
  then have "(c, u) \<in> set (zip lowerLetters upperLetters)" by (rule map_of_SomeD)
  then have "c \<in> set lowerLetters" "u \<in> set upperLetters"
    by (auto dest: set_zip_leftD set_zip_rightD)
  with Some show ?thesis by (simp add: toUpperChar_def)
qed

lemma isSpace_toUpperChar: "isSpace (toUpperChar c) = isSpace c"
proof -
  have "\<And>x. x \<in> set lowerLetters \<Longrightarrow> \<not> isSpace x"
    by (auto simp: lowerLetters_def isSpace_def)
  moreover have "\<And>x. x \<in> set upperLetters \<Longrightarrow> \<not> isSpace x"
    by (auto simp: upperLetters_def isSpace_def)
  ultimately show ?thesis using toUpperChar_cases[of c] by auto
qed

lemma toUpperCase_trim: "toUpperCase (trim s) = trim (toUpperCase s)"
proof -
  have c: "isSpace \<circ> toUpperChar = isSpace"
    by (rule ext) (simp add: isSpace_toUpperChar)
  show ?thesis
    unfolding toUpperCase_def trim_def
    by (simp add: dropWhile_map rev_map c)
qed

lemma closed_marker_survives_trim:
  assumes "str_includes (toUpperCase s) ''CLOSED_PERMANENTLY''"
  shows "str_includes (toUpperCase (trim s)) ''CLOSED_PERMANENTLY''"
  unfolding toUpperCase_trim
  by (rule str_includes_trim[OF assms]) (simp_all add: isSpace_def)


subsection \<open>Bounds of the scorer's steps\<close>

lemmas tally_defs = emit_def push_reason_def add_score_def

lemma websiteStep_score:
  "t_score t \<le> t_score (websiteStep w t) \<and> t_score (websiteStep w t) \<le> t_score t + 25"
  by (simp add: websiteStep_def builderPenalty_def tally_defs Let_def)

lemma reviewStep_score:
  "t_score t + 2 \<le> t_score (reviewStep n t) \<and> t_score (reviewStep n t) \<le> t_score t + 18"
  by (simp add: reviewStep_def reviewBand_def tally_defs)

lemma ratingStep_score:
  "t_score t + 1 \<le> t_score (ratingStep n t) \<and> t_score (ratingStep n t) \<le> t_score t + 18"
  by (simp add: ratingStep_def ratingBand_def tally_defs)

lemma phoneStep_score:
  "t_score t \<le> t_score (phoneStep p t) \<and> t_score (phoneStep p t) \<le> t_score t + 8"
  by (simp add: phoneStep_def tally_defs)

lemma operationalStep_score:
  "t_score t - 2 \<le> t_score (operationalStep s t) \<and> t_score (operationalStep s t) \<le> t_score t"
  by (simp add: operationalStep_def tally_defs Let_def)

lemma accumulate_bounds: "1 \<le> t_score (accumulate i) \<and> t_score (accumulate i) \<le> 69"
proof -
  let ?t0 = "\<lparr>t_score = 0, t_reasons = [], t_signals = []\<rparr>"
  let ?t1 = "websiteStep (trim (orEmpty (website i))) ?t0"
  let ?t2 = "reviewStep (orZero (user_ratings_total i)) ?t1"
  let ?t3 = "ratingStep (orZero (rating i)) ?t2"
  let ?t4 = "phoneStep (trim (orEmpty (phone i))) ?t3"
  let ?t5 = "operationalStep (trim (orEmpty (business_status i))) ?t4"
  have 0: "t_score ?t0 = 0" by simp
  note b = websiteStep_score[of ?t0 "trim (orEmpty (website i))"]
    reviewStep_score[of ?t1 "orZero (user_ratings_total i)"]
    ratingStep_score[of ?t2 "orZero (rating i)"]
    phoneStep_score[of ?t3 "trim (orEmpty (phone i))"]
    operationalStep_score[of ?t4 "trim (orEmpty (business_status i))"]
  have "t_score (accumulate i) = t_score ?t5" by (simp add: accumulate_def)
  with 0 b show ?thesis by linarith
qed

lemma score_cases:
  "score (computeAutomationNeedScoreDetailed i) = 0 \<or>
   score (computeAutomationNeedScoreDetailed i) = t_score (accumulate i)"
  using accumulate_bounds[of i]
  by (simp add: computeAutomationNeedScoreDetailed_def Let_def clamp_def)

lemma short_circuit:
  assumes "business_status i = Some s" "str_includes (toUpperCase s) ''CLOSED_PERMANENTLY''"
  shows "computeAutomationNeedScoreDetailed i =
    \<lparr>score = 0, reasons = [''Permanently closed (skip)''], signals = [(''closed'', 100)]\<rparr>"
proof -
  have "str_includes (toUpperCase (trim (orEmpty (business_status i)))) ''CLOSED_PERMANENTLY''"
    using assms by (simp add: orEmpty_def closed_marker_survives_trim)
  then show ?thesis by (simp add: computeAutomationNeedScoreDetailed_def)
qed


subsection \<open>Sets and dictionaries\<close>

lemma map_of_assign: "map_of (assign k v m) = (map_of m)(k \<mapsto> v)"
  by (induction m) (auto simp: fun_eq_iff)

lemma set_foldl_set_add: "set (foldl set_add acc xs) = set acc \<union> set xs"
  by (induction xs arbitrary: acc) (auto simp: set_add_def)

lemma set_new_Set: "set (new_Set xs) = set xs"
  by (simp add: new_Set_def set_foldl_set_add)


subsection \<open>Sorting by descending key\<close>

lemma sortDescending_sorted:
  "sorted_wrt (\<lambda>a b. key b \<le> key a) (sortDescending key xs)"
proof -
  have "sorted (map (\<lambda>x. - key x) (sort_key (\<lambda>x. - key x) xs))"
    by (rule sorted_sort_key)
  then show ?thesis
    by (simp add: sortDescending_def sorted_map)
qed

lemma sortDescending_set: "set (sortDescending key xs) = set xs"
  by (simp add: sortDescending_def)

lemma sortDescending_stable:
  "filter (\<lambda>x. key x = k) (sortDescending key xs) = filter (\<lambda>x. key x = k) xs"
proof -
  have "filter (\<lambda>x. - key x = - k) (sort_key (\<lambda>x. - key x) xs) = filter (\<lambda>x. - key x = - k) xs"
    by (rule sort_key_stable)
  then show ?thesis by (simp add: sortDescending_def)
qed


subsection \<open>Email discovery\<close>

lemma discoverEmails_emails:
  assumes "extractDomain_email (hostname_of e) s = Some d" "d \<noteq> []"
  shows "emails (discoverEmails e n s) =
    sortDescending (confidenceOf (confidence (discoverEmails e n s)))
      (filter (\<lambda>x. map_of (validationResults (discoverEmails e n s)) x \<noteq> Some invalid)
         (fst (collectEmails e n s)))"
  using assms by (simp add: discoverEmails_def selectValid_def Let_def split: prod.splits)

lemma discoverEmails_no_domain:
  assumes "extractDomain_email (hostname_of e) s = None \<or> extractDomain_email (hostname_of e) s = Some []"
  shows "discoverEmails e n s = \<lparr>emails = [], patterns = [], confidence = [], validationResults = [], sources = []\<rparr>"
  using assms by (auto simp add: discoverEmails_def)

lemma discoverEmails_emails_sorted:
  "\<exists>xs. emails (discoverEmails e n s) = sortDescending (confidenceOf (confidence (discoverEmails e n s))) xs
     \<and> list_all (\<lambda>x. map_of (validationResults (discoverEmails e n s)) x \<noteq> Some invalid) xs"
proof (cases "extractDomain_email (hostname_of e) s")
  case None
  then have "emails (discoverEmails e n s) = sortDescending (confidenceOf (confidence (discoverEmails e n s))) []"
    by (simp add: discoverEmails_no_domain sortDescending_def)
  then show ?thesis by (intro exI[of _ "[]"]) simp
next
  case (Some d)
  show ?thesis
  proof (cases "d = []")
    case True
    with Some have "emails (discoverEmails e n s) = sortDescending (confidenceOf (confidence (discoverEmails e n s))) []"
      by (simp add: discoverEmails_no_domain sortDescending_def)
    then show ?thesis by (intro exI[of _ "[]"]) simp
  next
    case False
    let ?xs = "filter (\<lambda>x. map_of (validationResults (discoverEmails e n s)) x \<noteq> Some invalid)
         (fst (collectEmails e n s))"
    have "emails (discoverEmails e n s) = sortDescending (confidenceOf (confidence (discoverEmails e n s))) ?xs"
      using Some False by (rule discoverEmails_emails)
    moreover have "list_all (\<lambda>x. map_of (validationResults (discoverEmails e n s)) x \<noteq> Some invalid) ?xs"
      by (simp add: list_all_iff)
    ultimately show ?thesis by blast
  qed
qed


lemma filter_Cons_find: "filter P xs = y # ys \<Longrightarrow> find P xs = Some y"
  by (induction xs) (auto split: if_splits)


lemma addScraped_step:
  "map_of (snd (addScraped st x)) = (map_of (snd st))(toLowerCase x \<mapsto> ''scraped-html'')"
  by (simp add: addScraped_def map_of_assign)

lemma addScraped_sources:
  "map_of (snd (foldl addScraped st xs)) k =
     (if k \<in> toLowerCase ` set xs then Some ''scraped-html'' else map_of (snd st) k)"
proof (induction xs arbitrary: st)
  case Nil
  then show ?case by simp
next
  case (Cons x xs)
  show ?case
    by (simp add: Cons.IH addScraped_step)
qed

lemma addPattern_keeps:
  assumes "map_of (snd st) k = Some v" "v \<noteq> []"
  shows "map_of (snd (foldl addPattern st xs)) k = Some v"
  using assms
proof (induction xs arbitrary: st)
  case Nil
  then show ?case by simp
next
  case (Cons x xs)
  have "map_of (snd (addPattern st x)) k = Some v"
    using Cons.prems by (auto simp: addPattern_def map_of_assign split: option.splits)
  then show ?case using Cons.IH[of "addPattern st x"] Cons.prems(2) by simp
qed

lemma addPattern_values:
  assumes "\<And>k v. map_of (snd st) k = Some v \<Longrightarrow> v \<in> {''scraped-html'', ''pattern-common''}"
  shows "map_of (snd (foldl addPattern st xs)) k = Some v \<Longrightarrow> v \<in> {''scraped-html'', ''pattern-common''}"
  using assms
proof (induction xs arbitrary: st)
  case Nil
  then show ?case by simp
next
  case (Cons x xs)
  have "\<And>k v. map_of (snd (addPattern st x)) k = Some v \<Longrightarrow> v \<in> {''scraped-html'', ''pattern-common''}"
    using Cons.prems(2) by (auto simp: addPattern_def map_of_assign split: option.splits if_splits)
  with Cons.IH[of "addPattern st x"] Cons.prems(1) show ?case by simp
qed

lemma collectEmails_tags:
  assumes "map_of (snd (collectEmails e n s)) k = Some v"
  shows "v \<in> {''scraped-html'', ''pattern-common''}"
proof -
  have base: "\<And>k v. map_of (snd (foldl addScraped ([], []) (scrapeEmailsFromWebsite e s))) k = Some v
      \<Longrightarrow> v \<in> {''scraped-html'', ''pattern-common''}"
    by (simp add: addScraped_sources split: if_splits)
  from assms have "map_of (snd (foldl addPattern
      (foldl addScraped ([], []) (scrapeEmailsFromWebsite e s))
      (generateEmailPatterns (hostname_of e) n s))) k = Some v"
    by (simp add: collectEmails_def)
  with base show ?thesis by (rule addPattern_values)
qed

lemma collectEmails_scraped:
  assumes "m \<in> set (scrapeEmailsFromWebsite e s)"
  shows "map_of (snd (collectEmails e n s)) (toLowerCase m) = Some ''scraped-html''"
proof -
  have "map_of (snd (foldl addScraped ([], []) (scrapeEmailsFromWebsite e s))) (toLowerCase m)
      = Some ''scraped-html''"
    using assms by (simp add: addScraped_sources)
  then show ?thesis
    unfolding collectEmails_def by (rule addPattern_keeps) simp
qed

lemma scrape_mailto:
  assumes "http_get e (withScheme s) = Response st txt hdr (Body html)" "ok st"
  shows "set (mailtoRegex e html) \<subseteq> set (scrapeEmailsFromWebsite e s)"
  using assms by (simp add: scrapeEmailsFromWebsite_def set_new_Set)

lemma discoverEmails_sources:
  assumes "extractDomain_email (hostname_of e) s = Some d" "d \<noteq> []"
  shows "sources (discoverEmails e n s) = snd (collectEmails e n s)"
  using assms by (simp add: discoverEmails_def Let_def split: prod.splits)

lemma discoverEmails_tags:
  assumes "map_of (sources (discoverEmails e n s)) k = Some v"
  shows "v \<in> {''scraped-html'', ''pattern-common''}"
proof (cases "extractDomain_email (hostname_of e) s = None \<or> extractDomain_email (hostname_of e) s = Some []")
  case True
  then have "sources (discoverEmails e n s) = []" by (simp add: discoverEmails_no_domain)
  with assms show ?thesis by simp
next
  case False
  then obtain d where "extractDomain_email (hostname_of e) s = Some d" "d \<noteq> []" by auto
  then have "sources (discoverEmails e n s) = snd (collectEmails e n s)"
    by (rule discoverEmails_sources)
  with assms have "map_of (snd (collectEmails e n s)) k = Some v" by simp
  then show ?thesis by (rule collectEmails_tags)
qed


lemma validateOne_conf:
  "map_of (snd (validateOne mx d srcs st x)) =
     (map_of (snd st))(x \<mapsto>
        (if \<not> isValidEmailFormat x then 0
         else scoreEmailConfidence x (map_of srcs x) (if \<not> mx then invalid else unknown) d))"
  by (simp add: validateOne_def map_of_assign Let_def)

lemma foldl_validateOne_conf:
  "map_of (snd (foldl (validateOne mx d srcs) st xs)) x =
     (if x \<in> set xs
      then Some (if \<not> isValidEmailFormat x then 0
                 else scoreEmailConfidence x (map_of srcs x) (if \<not> mx then invalid else unknown) d)
      else map_of (snd st) x)"
proof (induction xs arbitrary: st)
  case Nil
  then show ?case by simp
next
  case (Cons y ys)
  show ?case
    by (simp add: Cons.IH validateOne_conf)
qed

lemma validateAll_conf:
  assumes "x \<in> set xs"
  shows "confidenceOf (snd (validateAll mx d srcs xs)) x =
     (if \<not> isValidEmailFormat x then 0
      else scoreEmailConfidence x (map_of srcs x) (if \<not> mx then invalid else unknown) d)"
  using assms by (simp add: validateAll_def confidenceOf_def foldl_validateOne_conf)

lemma addScraped_emails:
  "set (fst (foldl addScraped st xs)) = set (fst st) \<union> toLowerCase ` set xs"
proof (induction xs arbitrary: st)
  case Nil
  then show ?case by simp
next
  case (Cons y ys)
  have "set (fst (addScraped st y)) = insert (toLowerCase y) (set (fst st))"
    by (auto simp: addScraped_def set_add_def)
  then show ?case by (simp add: Cons.IH)
qed

lemma addPattern_emails:
  "set (fst st) \<subseteq> set (fst (foldl addPattern st xs))"
proof (induction xs arbitrary: st)
  case Nil
  then show ?case by simp
next
  case (Cons y ys)
  have "set (fst st) \<subseteq> set (fst (addPattern st y))"
    by (auto simp: addPattern_def set_add_def)
  with Cons.IH[of "addPattern st y"] show ?case by auto
qed

lemma collectEmails_holds_scraped:
  assumes "m \<in> set (scrapeEmailsFromWebsite e s)"
  shows "toLowerCase m \<in> set (fst (collectEmails e n s))"
proof -
  have "toLowerCase m \<in> set (fst (foldl addScraped ([], []) (scrapeEmailsFromWebsite e s)))"
    using assms by (simp add: addScraped_emails)
  then show ?thesis
    unfolding collectEmails_def using addPattern_emails by blast
qed

lemma discoverEmails_confidence:
  assumes "extractDomain_email (hostname_of e) s = Some d" "d \<noteq> []"
  shows "confidence (discoverEmails e n s) =
    snd (validateAll (checkMXRecords e d) d (snd (collectEmails e n s)) (fst (collectEmails e n s)))"
  using assms by (simp add: discoverEmails_def Let_def split: prod.splits)

lemma set_dropWhile_subset: "set (dropWhile P xs) \<subseteq> set xs"
  by (induction xs) auto

lemma set_trim_subset: "set (trim s) \<subseteq> set s"
proof -
  have "set (dropWhile isSpace (rev (dropWhile isSpace s))) \<subseteq> set (rev (dropWhile isSpace s))"
    by (rule set_dropWhile_subset)
  also have "\<dots> \<subseteq> set s" using set_dropWhile_subset[of isSpace s] by simp
  finally show ?thesis by (simp add: trim_def)
qed

lemma split_ws_pieces: "p \<in> set (split_ws s) \<Longrightarrow> set p \<subseteq> set s"
proof (induction s arbitrary: p rule: split_ws.induct)
  case 1
  then show ?case by simp
next
  case (2 c cs)
  show ?case
  proof (cases "isSpace c")
    case True
    with "2.prems" have "p = [] \<or> p \<in> set (split_ws (dropWhile isSpace cs))" by simp
    then show ?thesis
    proof
      assume "p = []" then show ?thesis by simp
    next
      assume "p \<in> set (split_ws (dropWhile isSpace cs))"
      then have "set p \<subseteq> set (dropWhile isSpace cs)" using "2.IH"(1)[OF True] by blast
      then show ?thesis using set_dropWhile_subset[of isSpace cs] by auto
    qed
  next
    case False
    show ?thesis
    proof (cases "split_ws cs")
      case Nil
      with False "2.prems" show ?thesis by simp
    next
      case (Cons q qs)
      with False "2.prems" have "p = c # q \<or> p \<in> set qs" by simp
      moreover have "set q \<subseteq> set cs" using "2.IH"(2)[OF False, of q] Cons by simp
      moreover have "p \<in> set qs \<Longrightarrow> set p \<subseteq> set cs" using "2.IH"(2)[OF False, of p] Cons by simp
      ultimately show ?thesis by auto
    qed
  qed
qed

lemma first_piece_split_ws: "set (first_piece (split_ws s)) \<subseteq> set s"
proof (cases "split_ws s")
  case Nil
  then show ?thesis by (simp add: first_piece_def)
next
  case (Cons p ps)
  then have "p \<in> set (split_ws s)" by simp
  then have "set p \<subseteq> set s" by (rule split_ws_pieces)
  with Cons show ?thesis by (simp add: first_piece_def)
qed

lemma at_not_in_cleanName: "CHR ''@'' \<notin> set (cleanName n)"
proof -
  have "set (cleanName n) \<subseteq> set (cleanLower n)"
    unfolding cleanName_def using first_piece_split_ws set_trim_subset by blast
  moreover have "CHR ''@'' \<notin> set (cleanLower n)"
    by (simp add: cleanLower_def isLowerAlnum_def isSpace_def isDigit_def lowerLetters_def)
  ultimately show ?thesis by blast
qed

lemma generateEmailPatterns_set:
  assumes "extractDomain_email parse site = Some domain" "domain \<noteq> []"
  shows "set (generateEmailPatterns parse businessName site) =
     (\<lambda>prefix. prefix @ ''@'' @ domain) ` set EMAIL_PATTERNS \<union>
     (if cleanName businessName \<noteq> [] \<and> length (cleanName businessName) > 2
      then {cleanName businessName @ ''@'' @ domain, ''contact@'' @ cleanName businessName @ ''.com''}
      else {}) \<union>
     {''estimate@'' @ domain, ''quote@'' @ domain, ''service@'' @ domain,
      ''booking@'' @ domain, ''appointments@'' @ domain}"
  using assms by (auto simp add: generateEmailPatterns_def Let_def set_new_Set)

lemma EMAIL_PATTERNS_no_at: "p \<in> set EMAIL_PATTERNS \<Longrightarrow> CHR ''@'' \<notin> set p"
proof -
  have "list_all (\<lambda>p. CHR ''@'' \<notin> set p) EMAIL_PATTERNS" by code_simp
  then show "p \<in> set EMAIL_PATTERNS \<Longrightarrow> CHR ''@'' \<notin> set p"
    by (simp add: list_all_iff)
qed

lemma generateEmailPatterns_no_domain:
  "extractDomain_email parse site = Some [] \<Longrightarrow> generateEmailPatterns parse businessName site = []"
  by (simp add: generateEmailPatterns_def)


subsection \<open>A run in the sample environment\<close>

lemma sample_domain: "extractDomain_email (hostname_of sample_env) ''a.io'' = Some ''a.io''"
  by code_simp

lemma sample_mx: "checkMXRecords sample_env ''a.io''"
  by code_simp

lemma sample_collect:
  "collectEmails sample_env [] ''a.io'' =
    ([''bo@a.io'', ''info@a.io'', ''contact@a.io'', ''sales@a.io'', ''hello@a.io'',
      ''support@a.io'', ''admin@a.io'', ''office@a.io'', ''inquiries@a.io'', ''team@a.io'',
      ''mail@a.io'', ''estimate@a.io'', ''quote@a.io'', ''service@a.io'', ''booking@a.io'',
      ''appointments@a.io''],
     [(''bo@a.io'', ''scraped-html''), (''info@a.io'', ''pattern-common''),
      (''contact@a.io'', ''pattern-common''), (''sales@a.io'', ''pattern-common''),
      (''hello@a.io'', ''pattern-common''), (''support@a.io'', ''pattern-common''),
      (''admin@a.io'', ''pattern-common''), (''office@a.io'', ''pattern-common''),
      (''inquiries@a.io'', ''pattern-common''), (''team@a.io'', ''pattern-common''),
      (''mail@a.io'', ''pattern-common''), (''estimate@a.io'', ''pattern-common''),
      (''quote@a.io'', ''pattern-common''), (''service@a.io'', ''pattern-common''),
      (''booking@a.io'', ''pattern-common''), (''appointments@a.io'', ''pattern-common'')])"
  by code_simp

lemma sample_validate:
  "validateAll True ''a.io''
     [(''bo@a.io'', ''scraped-html''), (''info@a.io'', ''pattern-common''),
      (''contact@a.io'', ''pattern-common''), (''sales@a.io'', ''pattern-common''),
      (''hello@a.io'', ''pattern-common''), (''support@a.io'', ''pattern-common''),
      (''admin@a.io'', ''pattern-common''), (''office@a.io'', ''pattern-common''),
      (''inquiries@a.io'', ''pattern-common''), (''team@a.io'', ''pattern-common''),
      (''mail@a.io'', ''pattern-common''), (''estimate@a.io'', ''pattern-common''),
      (''quote@a.io'', ''pattern-common''), (''service@a.io'', ''pattern-common''),
      (''booking@a.io'', ''pattern-common''), (''appointments@a.io'', ''pattern-common'')]
     [''bo@a.io'', ''info@a.io'', ''contact@a.io'', ''sales@a.io'', ''hello@a.io'',
      ''support@a.io'', ''admin@a.io'', ''office@a.io'', ''inquiries@a.io'', ''team@a.io'',
      ''mail@a.io'', ''estimate@a.io'', ''quote@a.io'', ''service@a.io'', ''booking@a.io'',
      ''appointments@a.io''] =
    ([(''bo@a.io'', unknown), (''info@a.io'', unknown), (''contact@a.io'', unknown),
      (''sales@a.io'', unknown), (''hello@a.io'', unknown), (''support@a.io'', unknown),
      (''admin@a.io'', unknown), (''office@a.io'', unknown), (''inquiries@a.io'', unknown),
      (''team@a.io'', unknown), (''mail@a.io'', unknown), (''estimate@a.io'', unknown),
      (''quote@a.io'', unknown), (''service@a.io'', unknown), (''booking@a.io'', unknown),
      (''appointments@a.io'', unknown)],
     [(''bo@a.io'', 80), (''info@a.io'', 85), (''contact@a.io'', 85), (''sales@a.io'', 85),
      (''hello@a.io'', 85), (''support@a.io'', 80), (''admin@a.io'', 80), (''office@a.io'', 70),
      (''inquiries@a.io'', 70), (''team@a.io'', 80), (''mail@a.io'', 70), (''estimate@a.io'', 78),
      (''quote@a.io'', 78), (''service@a.io'', 78), (''booking@a.io'', 70),
      (''appointments@a.io'', 70)])"
  by code_simp

lemma sample_sort:
  "selectValid
        [(''bo@a.io'', unknown), (''info@a.io'', unknown), (''contact@a.io'', unknown),
         (''sales@a.io'', unknown), (''hello@a.io'', unknown), (''support@a.io'', unknown),
         (''admin@a.io'', unknown), (''office@a.io'', unknown), (''inquiries@a.io'', unknown),
         (''team@a.io'', unknown), (''mail@a.io'', unknown), (''estimate@a.io'', unknown),
         (''quote@a.io'', unknown), (''service@a.io'', unknown), (''booking@a.io'', unknown),
         (''appointments@a.io'', unknown)]
       [(''bo@a.io'', 80), (''info@a.io'', 85), (''contact@a.io'', 85), (''sales@a.io'', 85),
        (''hello@a.io'', 85), (''support@a.io'', 80), (''admin@a.io'', 80), (''office@a.io'', 70),
        (''inquiries@a.io'', 70), (''team@a.io'', 80), (''mail@a.io'', 70), (''estimate@a.io'', 78),
        (''quote@a.io'', 78), (''service@a.io'', 78), (''booking@a.io'', 70),
        (''appointments@a.io'', 70)]
       [''bo@a.io'', ''info@a.io'', ''contact@a.io'', ''sales@a.io'', ''hello@a.io'',
        ''support@a.io'', ''admin@a.io'', ''office@a.io'', ''inquiries@a.io'', ''team@a.io'',
        ''mail@a.io'', ''estimate@a.io'', ''quote@a.io'', ''service@a.io'', ''booking@a.io'',
        ''appointments@a.io''] =
   [''info@a.io'', ''contact@a.io'', ''sales@a.io'', ''hello@a.io'', ''bo@a.io'',
    ''support@a.io'', ''admin@a.io'', ''team@a.io'', ''estimate@a.io'', ''quote@a.io'',
    ''service@a.io'', ''office@a.io'', ''inquiries@a.io'', ''mail@a.io'', ''booking@a.io'',
    ''appointments@a.io'']"
  by code_simp

lemma sample_emails:
  "emails (discoverEmails sample_env [] ''a.io'') =
   [''info@a.io'', ''contact@a.io'', ''sales@a.io'', ''hello@a.io'', ''bo@a.io'',
    ''support@a.io'', ''admin@a.io'', ''team@a.io'', ''estimate@a.io'', ''quote@a.io'',
    ''service@a.io'', ''office@a.io'', ''inquiries@a.io'', ''mail@a.io'', ''booking@a.io'',
    ''appointments@a.io'']"
  by (simp add: discoverEmails_def sample_domain sample_mx sample_collect sample_validate
        sample_sort)

lemma sample_patterns: "generateEmailPatterns (hostname_of sample_env) ''Acme'' ''a.io'' =
  [''info@a.io'', ''contact@a.io'', ''sales@a.io'', ''hello@a.io'', ''support@a.io'',
   ''admin@a.io'', ''office@a.io'', ''inquiries@a.io'', ''team@a.io'', ''mail@a.io'',
   ''acme@a.io'', ''contact@acme.com'', ''estimate@a.io'', ''quote@a.io'', ''service@a.io'',
   ''booking@a.io'', ''appointments@a.io'']"
  by code_simp

lemma sample_confidence:
  "confidence (discoverEmails sample_env [] ''a.io'') =
     [(''bo@a.io'', 80), (''info@a.io'', 85), (''contact@a.io'', 85), (''sales@a.io'', 85),
      (''hello@a.io'', 85), (''support@a.io'', 80), (''admin@a.io'', 80), (''office@a.io'', 70),
      (''inquiries@a.io'', 70), (''team@a.io'', 80), (''mail@a.io'', 70), (''estimate@a.io'', 78),
      (''quote@a.io'', 78), (''service@a.io'', 78), (''booking@a.io'', 70),
      (''appointments@a.io'', 70)]"
  by (simp add: discoverEmails_def sample_domain sample_mx sample_collect sample_validate)


subsection \<open>Social profile verification\<close>

lemma probeInOrder_other:
  "x \<noteq> p \<Longrightarrow> probeCount x (snd (probeInOrder e p us lg)) = probeCount x lg"
  by (induction us arbitrary: lg) (simp_all add: probeCount_def)

lemma found_iff: "found p ps \<longleftrightarrow> p \<in> platform ` set ps"
  by (auto simp: found_def list_ex_iff)

lemma verifyLinkedIn_platform: "verifyLinkedIn e n lg = (Some q, lg') \<Longrightarrow> platform q = linkedin"
  by (auto simp: verifyLinkedIn_def split: prod.splits option.splits)

lemma verifyFacebook_platform: "verifyFacebook e n lg = (Some q, lg') \<Longrightarrow> platform q = facebook"
  by (auto simp: verifyFacebook_def split: prod.splits option.splits)

lemma verifyInstagram_platform: "verifyInstagram e n lg = (Some q, lg') \<Longrightarrow> platform q = instagram"
  by (auto simp: verifyInstagram_def split: prod.splits option.splits)

lemma verifyLinkedIn_probes:
  "x \<noteq> linkedin \<Longrightarrow> probeCount x (snd (verifyLinkedIn e n lg)) = probeCount x lg"
  using probeInOrder_other[of x linkedin e "generateLinkedInUrls n" lg]
  by (auto simp: verifyLinkedIn_def split: prod.splits option.splits)

lemma verifyFacebook_probes:
  "x \<noteq> facebook \<Longrightarrow> probeCount x (snd (verifyFacebook e n lg)) = probeCount x lg"
  using probeInOrder_other[of x facebook e "generateFacebookUrls n" lg]
  by (auto simp: verifyFacebook_def split: prod.splits option.splits)

lemma verifyInstagram_probes:
  "x \<noteq> instagram \<Longrightarrow> probeCount x (snd (verifyInstagram e n lg)) = probeCount x lg"
  using probeInOrder_other[of x instagram e "generateInstagramUrls n" lg]
  by (auto simp: verifyInstagram_def split: prod.splits option.splits)

lemma unlessFound_keeps_found:
  "found x (fst st) \<Longrightarrow> found x (fst (unlessFound p V st))"
  by (auto simp: unlessFound_def found_iff split: prod.splits option.splits)

lemma unlessFound_skips:
  "found p (fst st) \<Longrightarrow> snd (unlessFound p V st) = snd st"
  by (simp add: unlessFound_def)

lemma unlessFound_other:
  assumes "\<And>lg. probeCount x (snd (V lg)) = probeCount x lg"
  shows "probeCount x (snd (unlessFound p V st)) = probeCount x (snd st)"
proof (cases "found p (fst st)")
  case True
  then show ?thesis by (simp add: unlessFound_def)
next
  case False
  have "snd (unlessFound p V st) = snd (V (snd st))"
    using False by (simp add: unlessFound_def split: prod.splits option.splits)
  then show ?thesis using assms by simp
qed

lemma unlessFound_distinct:
  assumes "\<And>lg q lg'. V lg = (Some q, lg') \<Longrightarrow> platform q = p"
    and "distinct (map platform (fst st))"
  shows "distinct (map platform (fst (unlessFound p V st)))"
proof (cases "found p (fst st)")
  case True
  with assms(2) show ?thesis by (simp add: unlessFound_def)
next
  case False
  then have np: "p \<notin> platform ` set (fst st)" by (simp add: found_iff)
  show ?thesis
  proof (cases "V (snd st)")
    case (Pair m lg')
    show ?thesis
    proof (cases m)
      case None
      with Pair False assms(2) show ?thesis by (simp add: unlessFound_def)
    next
      case (Some q)
      with Pair have "platform q = p" using assms(1) by blast
      with Pair Some False assms(2) np show ?thesis by (simp add: unlessFound_def)
    qed
  qed
qed

lemma linked_platforms: "map platform (linked p m) = (case m of None \<Rightarrow> [] | Some u \<Rightarrow> [p])"
  by (simp add: linked_def split: option.splits)

lemma extractSocials_distinct: "distinct (map platform (extractSocialsFromWebsite e w))"
  by (simp add: extractSocialsFromWebsite_def linked_platforms
      split: http_outcome.splits body.splits option.splits)

lemma websiteProfiles_distinct: "distinct (map platform (websiteProfiles e site))"
  by (simp add: websiteProfiles_def extractSocials_distinct split: option.splits)

lemma gatherProfiles_distinct: "distinct (map platform (fst (gatherProfiles e n site)))"
proof -
  let ?s0 = "(websiteProfiles e site, [] :: probe_log)"
  let ?s1 = "unlessFound linkedin (verifyLinkedIn e n) ?s0"
  let ?s2 = "unlessFound facebook (verifyFacebook e n) ?s1"
  let ?s3 = "unlessFound instagram (verifyInstagram e n) ?s2"
  have d0: "distinct (map platform (fst ?s0))" by (simp add: websiteProfiles_distinct)
  have d1: "distinct (map platform (fst ?s1))"
    using verifyLinkedIn_platform d0 by (rule unlessFound_distinct)
  have d2: "distinct (map platform (fst ?s2))"
    using verifyFacebook_platform d1 by (rule unlessFound_distinct)
  have d3: "distinct (map platform (fst ?s3))"
    using verifyInstagram_platform d2 by (rule unlessFound_distinct)
  then show ?thesis by (simp add: gatherProfiles_def)
qed

lemma gatherProfiles_no_probe:
  assumes "found x (websiteProfiles e site)"
  shows "probeCount x (snd (gatherProfiles e n site)) = 0"
proof -
  let ?s0 = "(websiteProfiles e site, [] :: probe_log)"
  let ?s1 = "unlessFound linkedin (verifyLinkedIn e n) ?s0"
  let ?s2 = "unlessFound facebook (verifyFacebook e n) ?s1"
  let ?s3 = "unlessFound instagram (verifyInstagram e n) ?s2"
  have f0: "found x (fst ?s0)" using assms by simp
  have f1: "found x (fst ?s1)" using f0 by (rule unlessFound_keeps_found)
  have f2: "found x (fst ?s2)" using f1 by (rule unlessFound_keeps_found)
  have c0: "probeCount x (snd ?s0) = 0" by (simp add: probeCount_def)
  have c1: "probeCount x (snd ?s1) = probeCount x (snd ?s0)"
  proof (cases "x = linkedin")
    case True
    with f0 show ?thesis by (simp add: unlessFound_skips)
  next
    case False
    then show ?thesis by (intro unlessFound_other verifyLinkedIn_probes)
  qed
  have c2: "probeCount x (snd ?s2) = probeCount x (snd ?s1)"
  proof (cases "x = facebook")
    case True
    with f1 show ?thesis by (simp add: unlessFound_skips)
  next
    case False
    then show ?thesis by (intro unlessFound_other verifyFacebook_probes)
  qed
  have c3: "probeCount x (snd ?s3) = probeCount x (snd ?s2)"
  proof (cases "x = instagram")
    case True
    with f2 show ?thesis by (simp add: unlessFound_skips)
  next
    case False
    then show ?thesis by (intro unlessFound_other verifyInstagram_probes)
  qed
  have "gatherProfiles e n site = ?s3" by (simp add: gatherProfiles_def)
  with c0 c1 c2 c3 show ?thesis by simp
qed

lemma sortDescending_distinct_map:
  "distinct (map f (sortDescending key xs)) = distinct (map f xs)"
  by (simp add: sortDescending_def distinct_map)

lemma verifySocialProfiles_parts:
  "profiles (fst (verifySocialProfiles e n site)) = sortDescending p_confidence (fst (gatherProfiles e n site))"
  "snd (verifySocialProfiles e n site) = snd (gatherProfiles e n site)"
  by (simp_all add: verifySocialProfiles_def Let_def split: prod.splits)


subsection \<open>Website intelligence\<close>

lemma tryBlock_cases:
  "(\<exists>fs msg. tryBlock e site = (fs, Thrown msg)) \<or> (\<exists>fs r. tryBlock e site = (fs, Returned r))"
  by (cases "tryBlock e site"; cases "snd (tryBlock e site)") auto

lemma extract_returns: "\<exists>r. extractWebsiteIntelligence e site = Returned r"
  using tryBlock_cases[of e site]
  by (auto simp: extractWebsiteIntelligence_def)

lemma extract_net_error:
  assumes "http_get e (withScheme site) = NetError msg"
  shows "extractWebsiteIntelligence e site =
    Returned (createEmptyResult [''Fetching '' @ withScheme site @ ''...'', ''Error: '' @ msg])"
  using assms by (simp add: extractWebsiteIntelligence_def tryBlock_def Let_def)

lemma extract_not_ok:
  assumes "http_get e (withScheme site) = Response st txt hdr b" "\<not> ok st"
  shows "extractWebsiteIntelligence e site =
    Returned (createEmptyResult [''Fetching '' @ withScheme site @ ''...'',
                                 ''HTTP '' @ show_nat st @ '': '' @ txt])"
  using assms by (simp add: extractWebsiteIntelligence_def tryBlock_def Let_def)

lemma extract_body_error:
  assumes "http_get e (withScheme site) = Response st txt hdr (BodyError msg)" "ok st"
  shows "extractWebsiteIntelligence e site =
    Returned (createEmptyResult [''Fetching '' @ withScheme site @ ''...'', ''Error: '' @ msg])"
  using assms by (simp add: extractWebsiteIntelligence_def tryBlock_def Let_def)


section \<open>Properties of the scorer\<close>

text \<open>
  C2.  Whatever the rating, the review count, the website and the phone are: when the
  upper-cased \<open>business_status\<close> contains \<open>CLOSED_PERMANENTLY\<close>, the score is exactly 0.
\<close>

theorem closed_permanently_scores_zero:
  assumes "business_status input = Some s"
    and "str_includes (toUpperCase s) ''CLOSED_PERMANENTLY''"
  shows "score (computeAutomationNeedScoreDetailed input) = 0"
  using short_circuit[OF assms] by simp

theorem closed_permanently_scores_zero_witness:
  "str_includes (toUpperCase '' closed_permanently '') ''CLOSED_PERMANENTLY'' \<and>
   score (computeAutomationNeedScoreDetailed
     \<lparr>rating = Some (Num (32 / 10)), user_ratings_total = Some (Num 3), website = None,
      phone = None, business_status = Some '' closed_permanently ''\<rparr>) = 0"
proof -
  have h: "str_includes (toUpperCase '' closed_permanently '') ''CLOSED_PERMANENTLY''"
    by code_simp
  show ?thesis
    using h closed_permanently_scores_zero[where s = "'' closed_permanently ''", OF _ h]
    by simp
qed

text \<open>
  C3, as stated, fails: the scorer looks for the token \<open>CLOSED_PERMANENTLY\<close>, not for the
  phrase "permanently closed".  A status that carries the phrase is scored like any
  other: here 25 + 18 + 6 + 8 = 57, with four reasons and four signals.
\<close>

theorem permanently_closed_phrase_counterexample:
  "str_includes (toLowerCase ''Permanently Closed'') ''permanently closed'' \<and>
   score (computeAutomationNeedScoreDetailed
     \<lparr>rating = None, user_ratings_total = None, website = None, phone = None,
      business_status = Some ''Permanently Closed''\<rparr>) = 57 \<and>
   length (reasons (computeAutomationNeedScoreDetailed
     \<lparr>rating = None, user_ratings_total = None, website = None, phone = None,
      business_status = Some ''Permanently Closed''\<rparr>)) = 4 \<and>
   map fst (signals (computeAutomationNeedScoreDetailed
     \<lparr>rating = None, user_ratings_total = None, website = None, phone = None,
      business_status = Some ''Permanently Closed''\<rparr>)) =
     [''no_website'', ''low_reviews'', ''rating_gap'', ''no_phone'']"
  by code_simp

text \<open>
  C3, amended.  When the upper-cased \<open>business_status\<close> contains the token
  \<open>CLOSED_PERMANENTLY\<close>, the scorer returns score 0, the single reason
  "Permanently closed (skip)" and a signal map whose only entry is \<open>closed = 100\<close>: no
  other signal is evaluated.
\<close>

theorem closed_permanently_short_circuit:
  assumes "business_status input = Some s"
    and "str_includes (toUpperCase s) ''CLOSED_PERMANENTLY''"
  shows "computeAutomationNeedScoreDetailed input =
    \<lparr>score = 0, reasons = [''Permanently closed (skip)''], signals = [(''closed'', 100)]\<rparr>"
  using assms by (rule short_circuit)

theorem closed_permanently_short_circuit_witness:
  "str_includes (toUpperCase ''Closed_Permanently'') ''CLOSED_PERMANENTLY'' \<and>
   computeAutomationNeedScoreDetailed
     \<lparr>rating = Some (Num 5), user_ratings_total = Some (Num 400),
      website = Some ''https://acme.example'', phone = Some ''555-0100'',
      business_status = Some ''Closed_Permanently''\<rparr> =
    \<lparr>score = 0, reasons = [''Permanently closed (skip)''], signals = [(''closed'', 100)]\<rparr>"
proof -
  have h: "str_includes (toUpperCase ''Closed_Permanently'') ''CLOSED_PERMANENTLY''"
    by code_simp
  show ?thesis
    using h closed_permanently_short_circuit[where s = "''Closed_Permanently''", OF _ h]
    by simp
qed

text \<open>
  C6, as stated, fails on the number of reasons: for the candidate with no website,
  3 reviews, rating 3.2, no phone and status \<open>OPERATIONAL\<close> the score is 67, but five
  reasons are recorded before deduplication, not four.
\<close>

theorem four_reasons_counterexample:
  "\<not> (score (computeAutomationNeedScoreDetailed
         \<lparr>rating = Some (Num (32 / 10)), user_ratings_total = Some (Num 3), website = None,
          phone = None, business_status = Some ''OPERATIONAL''\<rparr>) = 67 \<and>
       length (t_reasons (accumulate
         \<lparr>rating = Some (Num (32 / 10)), user_ratings_total = Some (Num 3), website = None,
          phone = None, business_status = Some ''OPERATIONAL''\<rparr>)) = 4)"
  by code_simp

text \<open>
  C6, amended.  For that candidate the score is exactly 67 (25 + 18 + 18 + 8 - 2), and
  exactly five reasons are recorded before deduplication: one for each of the four
  positive signals, then the operational-discount reason; deduplication keeps all five.
\<close>

theorem end_to_end_score_67_five_reasons:
  "score (computeAutomationNeedScoreDetailed
     \<lparr>rating = Some (Num (32 / 10)), user_ratings_total = Some (Num 3), website = None,
      phone = None, business_status = Some ''OPERATIONAL''\<rparr>) = 67 \<and>
   t_reasons (accumulate
     \<lparr>rating = Some (Num (32 / 10)), user_ratings_total = Some (Num 3), website = None,
      phone = None, business_status = Some ''OPERATIONAL''\<rparr>) =
     [''No website (big automation + marketing gap)'',
      ''Very low review volume (weak online footprint)'',
      ''Poor rating (major ops / CX gap)'',
      ''No phone listed (conversion friction)'',
      ''Currently operational (active business)''] \<and>
   length (t_reasons (accumulate
     \<lparr>rating = Some (Num (32 / 10)), user_ratings_total = Some (Num 3), website = None,
      phone = None, business_status = Some ''OPERATIONAL''\<rparr>)) = 5 \<and>
   length (reasons (computeAutomationNeedScoreDetailed
     \<lparr>rating = Some (Num (32 / 10)), user_ratings_total = Some (Num 3), website = None,
      phone = None, business_status = Some ''OPERATIONAL''\<rparr>)) = 5 \<and>
   signals (computeAutomationNeedScoreDetailed
     \<lparr>rating = Some (Num (32 / 10)), user_ratings_total = Some (Num 3), website = None,
      phone = None, business_status = Some ''OPERATIONAL''\<rparr>) =
     [(''no_website'', 25), (''low_reviews'', 18), (''rating_gap'', 18), (''no_phone'', 8),
      (''operational'', - 2)]"
  by code_simp

text \<open>
  C10.  The score never exceeds 69 = 25 + 18 + 18 + 8.  Outside the short circuit it is
  the accumulated sum itself, which the clamp to [0, 100] leaves unchanged; and a
  minimum-score policy above 69 skips every candidate that reaches the score filter.
\<close>

theorem score_at_most_69:
  "score (computeAutomationNeedScoreDetailed input) \<le> 69 \<and>
   (\<not> str_includes (toUpperCase (trim (orEmpty (business_status input)))) ''CLOSED_PERMANENTLY'' \<longrightarrow>
      score (computeAutomationNeedScoreDetailed input) = t_score (accumulate input)) \<and>
   clamp (t_score (accumulate input)) 0 100 = t_score (accumulate input) \<and>
   (69 < m \<longrightarrow> skippedForScore (Some (Num m)) (score (computeAutomationNeedScoreDetailed input)))"
proof -
  have b: "1 \<le> t_score (accumulate input) \<and> t_score (accumulate input) \<le> 69"
    by (rule accumulate_bounds)
  have le: "score (computeAutomationNeedScoreDetailed input) \<le> 69"
    using score_cases[of input] b by auto
  have cl: "clamp (t_score (accumulate input)) 0 100 = t_score (accumulate input)"
    using b by (simp add: clamp_def)
  have raw: "\<not> str_includes (toUpperCase (trim (orEmpty (business_status input)))) ''CLOSED_PERMANENTLY'' \<longrightarrow>
      score (computeAutomationNeedScoreDetailed input) = t_score (accumulate input)"
    using cl by (simp add: computeAutomationNeedScoreDetailed_def Let_def)
  have sk: "69 < m \<longrightarrow> skippedForScore (Some (Num m)) (score (computeAutomationNeedScoreDetailed input))"
  proof
    assume m: "69 < m"
    have "(of_int (score (computeAutomationNeedScoreDetailed input)) :: rat) \<le> of_int 69"
      using le by (simp only: of_int_le_iff)
    then have "(of_int (score (computeAutomationNeedScoreDetailed input)) :: rat) < m"
      using m by simp
    then show "skippedForScore (Some (Num m)) (score (computeAutomationNeedScoreDetailed input))"
      by (simp add: skippedForScore_def)
  qed
  from le raw cl sk show ?thesis by blast
qed

theorem score_at_most_69_witness:
  "(69 :: rat) < 70 \<and>
   score (computeAutomationNeedScoreDetailed
     \<lparr>rating = Some (Num (32 / 10)), user_ratings_total = Some (Num 3), website = None,
      phone = None, business_status = None\<rparr>) = 69 \<and>
   skippedForScore (Some (Num 70)) (score (computeAutomationNeedScoreDetailed
     \<lparr>rating = Some (Num (32 / 10)), user_ratings_total = Some (Num 3), website = None,
      phone = None, business_status = None\<rparr>))"
proof -
  have v: "score (computeAutomationNeedScoreDetailed
     \<lparr>rating = Some (Num (32 / 10)), user_ratings_total = Some (Num 3), website = None,
      phone = None, business_status = None\<rparr>) = 69"
    by code_simp
  show ?thesis
    using v score_at_most_69[of "\<lparr>rating = Some (Num (32 / 10)), user_ratings_total = Some (Num 3),
      website = None, phone = None, business_status = None\<rparr>" 70]
    by simp
qed

section \<open>Properties of the trust classifier\<close>

text \<open>
  C1, as stated, fails: the two early returns of \<open>quickVerifyWebsite\<close> set the flags by
  hand.  For \<open>null\<close> the score is 0 while \<open>isLikelySpam\<close> and \<open>isSuspicious\<close> are both
  false; for a URL whose hostname does not parse the score is 0 while \<open>isLikelySpam\<close>
  is false.
\<close>

theorem quickVerify_thresholds_counterexample:
  "trustScore (quickVerifyWebsite (hostname_of sample_env) None) = 0 \<and>
   \<not> (isLikelySpam (quickVerifyWebsite (hostname_of sample_env) None)
        \<longleftrightarrow> trustScore (quickVerifyWebsite (hostname_of sample_env) None) < 30) \<and>
   \<not> (isSuspicious (quickVerifyWebsite (hostname_of sample_env) None)
        \<longleftrightarrow> trustScore (quickVerifyWebsite (hostname_of sample_env) None) < 50) \<and>
   extractDomain (hostname_of sample_env) ''not a url'' = [] \<and>
   \<not> (isLikelySpam (quickVerifyWebsite (hostname_of sample_env) (Some ''not a url''))
        \<longleftrightarrow> trustScore (quickVerifyWebsite (hostname_of sample_env) (Some ''not a url'')) < 30)"
  by code_simp

text \<open>
  C1, amended.  For every input the trust score lies in [0, 100] and \<open>isValid\<close> holds
  exactly when the score is at least 50.  \<open>isSuspicious\<close> holds exactly when the score
  is below 50 for every input but \<open>null\<close> and the blank string; \<open>isLikelySpam\<close> holds
  exactly when the score is below 30 for every input whose hostname parses to a
  non-empty domain.  On the other inputs the score is 0 and \<open>isLikelySpam\<close> is false, and
  for \<open>null\<close> and the blank string \<open>isSuspicious\<close> is false as well.
\<close>

theorem quickVerify_invariants:
  "0 \<le> trustScore (quickVerifyWebsite h w) \<and> trustScore (quickVerifyWebsite h w) \<le> 100 \<and>
   (isValid (quickVerifyWebsite h w) \<longleftrightarrow> 50 \<le> trustScore (quickVerifyWebsite h w)) \<and>
   (\<not> noWebsite w \<longrightarrow>
      (isSuspicious (quickVerifyWebsite h w) \<longleftrightarrow> trustScore (quickVerifyWebsite h w) < 50)) \<and>
   (\<not> noWebsite w \<and> extractDomain h (trim (orEmpty w)) \<noteq> [] \<longrightarrow>
      (isLikelySpam (quickVerifyWebsite h w) \<longleftrightarrow> trustScore (quickVerifyWebsite h w) < 30)) \<and>
   (noWebsite w \<or> extractDomain h (trim (orEmpty w)) = [] \<longrightarrow>
      trustScore (quickVerifyWebsite h w) = 0 \<and> \<not> isLikelySpam (quickVerifyWebsite h w)) \<and>
   (noWebsite w \<longrightarrow> \<not> isSuspicious (quickVerifyWebsite h w))"
  by (simp add: quickVerifyWebsite_def Let_def)

theorem quickVerify_invariants_witness:
  "\<not> noWebsite (Some ''http://bit.ly/xyz'') \<and>
   extractDomain (hostname_of sample_env) (trim (orEmpty (Some ''http://bit.ly/xyz''))) = ''bit.ly'' \<and>
   trustScore (quickVerifyWebsite (hostname_of sample_env) (Some ''http://bit.ly/xyz'')) = 20 \<and>
   flags (quickVerifyWebsite (hostname_of sample_env) (Some ''http://bit.ly/xyz''))
     = [''Known spam/redirect domain''] \<and>
   isLikelySpam (quickVerifyWebsite (hostname_of sample_env) (Some ''http://bit.ly/xyz'')) \<and>
   isSuspicious (quickVerifyWebsite (hostname_of sample_env) (Some ''http://bit.ly/xyz'')) \<and>
   \<not> isValid (quickVerifyWebsite (hostname_of sample_env) (Some ''http://bit.ly/xyz''))"
proof -
  have a: "\<not> noWebsite (Some ''http://bit.ly/xyz'')" by code_simp
  have b: "extractDomain (hostname_of sample_env) (trim (orEmpty (Some ''http://bit.ly/xyz'')))
      = ''bit.ly''"
    by code_simp
  have c: "trustScore (quickVerifyWebsite (hostname_of sample_env) (Some ''http://bit.ly/xyz'')) = 20"
    by code_simp
  have d: "flags (quickVerifyWebsite (hostname_of sample_env) (Some ''http://bit.ly/xyz''))
      = [''Known spam/redirect domain'']"
    by code_simp
  show ?thesis
    using a b c d quickVerify_invariants[of "hostname_of sample_env" "Some ''http://bit.ly/xyz''"]
    by simp
qed


section \<open>Properties of email discovery\<close>

text \<open>
  C4.  Whatever the network answers: no address in the list returned by
  \<open>discoverEmails\<close> has the validation entry "invalid"; the list is in descending order
  of confidence; when the domain parses, the addresses of one confidence keep the order
  in which they were first seen.  \<open>getBestEmail\<close> returns none exactly when the list is
  empty; otherwise it returns the first element, whose confidence is maximal and which
  is the first-seen among the returned addresses of that confidence.
\<close>

theorem discoverEmails_no_invalid_sorted_best:
  assumes r: "r = discoverEmails e businessName site"
    and key: "key = confidenceOf (confidence r)"
  shows "list_all (\<lambda>x. map_of (validationResults r) x \<noteq> Some invalid) (emails r) \<and>
    sorted_wrt (\<lambda>a b. key b \<le> key a) (emails r) \<and>
    (\<forall>d k. extractDomain_email (hostname_of e) site = Some d \<and> d \<noteq> [] \<longrightarrow>
       filter (\<lambda>x. key x = k) (emails r) =
       filter (\<lambda>x. key x = k)
         (filter (\<lambda>x. map_of (validationResults r) x \<noteq> Some invalid)
            (fst (collectEmails e businessName site)))) \<and>
    (getBestEmail r = None \<longleftrightarrow> emails r = []) \<and>
    (\<forall>b. getBestEmail r = Some b \<longrightarrow>
       b = hd (emails r) \<and> list_all (\<lambda>x. key x \<le> key b) (emails r) \<and>
       (\<forall>d. extractDomain_email (hostname_of e) site = Some d \<and> d \<noteq> [] \<longrightarrow>
          find (\<lambda>x. key x = key b)
            (filter (\<lambda>x. map_of (validationResults r) x \<noteq> Some invalid)
               (fst (collectEmails e businessName site))) = Some b))"
proof -
  let ?ok = "\<lambda>x. map_of (validationResults r) x \<noteq> Some invalid"
  let ?cands = "filter ?ok (fst (collectEmails e businessName site))"
  obtain xs where xs: "emails r = sortDescending key xs" and ok: "list_all ?ok xs"
    using discoverEmails_emails_sorted[of e businessName site] r key by blast
  have valid: "list_all ?ok (emails r)"
    using ok by (simp add: xs list_all_iff sortDescending_set)
  have sorted: "sorted_wrt (\<lambda>a b. key b \<le> key a) (emails r)"
    unfolding xs by (rule sortDescending_sorted)
  have stable: "filter (\<lambda>x. key x = k) (emails r) = filter (\<lambda>x. key x = k) ?cands"
    if "extractDomain_email (hostname_of e) site = Some d" "d \<noteq> []" for d k
  proof -
    have "emails r = sortDescending key ?cands"
      using discoverEmails_emails[OF that, of businessName] r key by simp
    then show ?thesis by (simp only: sortDescending_stable)
  qed
  have none: "getBestEmail r = None \<longleftrightarrow> emails r = []"
    by (simp add: getBestEmail_def split: list.splits)
  have best: "b = hd (emails r) \<and> list_all (\<lambda>x. key x \<le> key b) (emails r) \<and>
       (\<forall>d. extractDomain_email (hostname_of e) site = Some d \<and> d \<noteq> [] \<longrightarrow>
          find (\<lambda>x. key x = key b) ?cands = Some b)"
    if b: "getBestEmail r = Some b" for b
  proof -
    from b obtain rest where em: "emails r = b # rest"
      by (auto simp: getBestEmail_def split: list.splits)
    have 1: "b = hd (emails r)" by (simp add: em)
    have 2: "list_all (\<lambda>x. key x \<le> key b) (emails r)"
      using sorted unfolding em by (auto simp: list_all_iff)
    have 3: "find (\<lambda>x. key x = key b) ?cands = Some b"
      if "extractDomain_email (hostname_of e) site = Some d" "d \<noteq> []" for d
    proof -
      have "filter (\<lambda>x. key x = key b) ?cands = filter (\<lambda>x. key x = key b) (emails r)"
        using stable[OF that] by simp
      also have "\<dots> = b # filter (\<lambda>x. key x = key b) rest" by (simp add: em)
      finally show ?thesis by (rule filter_Cons_find)
    qed
    from 1 2 3 show ?thesis by blast
  qed
  from valid sorted stable none best show ?thesis by blast
qed


theorem discoverEmails_no_invalid_sorted_best_witness:
  "emails (discoverEmails sample_env [] ''a.io'') =
     [''info@a.io'', ''contact@a.io'', ''sales@a.io'', ''hello@a.io'', ''bo@a.io'',
      ''support@a.io'', ''admin@a.io'', ''team@a.io'', ''estimate@a.io'', ''quote@a.io'',
      ''service@a.io'', ''office@a.io'', ''inquiries@a.io'', ''mail@a.io'', ''booking@a.io'',
      ''appointments@a.io''] \<and>
   getBestEmail (discoverEmails sample_env [] ''a.io'') = Some ''info@a.io'' \<and>
   list_all (\<lambda>x. map_of (validationResults (discoverEmails sample_env [] ''a.io'')) x \<noteq> Some invalid)
     (emails (discoverEmails sample_env [] ''a.io'')) \<and>
   sorted_wrt (\<lambda>a b. confidenceOf (confidence (discoverEmails sample_env [] ''a.io'')) b
                   \<le> confidenceOf (confidence (discoverEmails sample_env [] ''a.io'')) a)
     (emails (discoverEmails sample_env [] ''a.io''))"
proof -
  note t = discoverEmails_no_invalid_sorted_best[OF refl refl, of sample_env "[]" "''a.io''"]
  have best: "getBestEmail (discoverEmails sample_env [] ''a.io'') = Some ''info@a.io''"
    unfolding getBestEmail_def sample_emails by simp
  from sample_emails best t[THEN conjunct1] t[THEN conjunct2, THEN conjunct1]
  show ?thesis by (intro conjI)
qed

text \<open>
  C5 does not hold of the code.  The scraper returns the targets of \<open>mailto:\<close> links in
  one flat list with the generic matches, and \<open>discoverEmails\<close> tags every scraped
  address \<open>scraped-html\<close>: an address found in a \<open>mailto:\<close> link of a page that was
  fetched is recorded with that tag, and the tag \<open>scraped-mailto\<close>, for which
  \<open>scoreEmailConfidence\<close> has a branch of its own, is recorded for no address at all.
  The confidence of such an address is computed with the source \<open>scraped-html\<close>.
\<close>

theorem mailto_addresses_tagged_scraped_html:
  assumes "extractDomain_email (hostname_of e) site = Some domain" and "domain \<noteq> []"
    and "http_get e (withScheme site) = Response st txt hdr (Body html)" and "ok st"
    and "m \<in> set (mailtoRegex e html)"
  shows "map_of (sources (discoverEmails e businessName site)) (toLowerCase m) = Some ''scraped-html'' \<and>
         (\<forall>k. map_of (sources (discoverEmails e businessName site)) k \<noteq> Some ''scraped-mailto'') \<and>
         confidenceOf (confidence (discoverEmails e businessName site)) (toLowerCase m) =
           (if \<not> isValidEmailFormat (toLowerCase m) then 0
            else scoreEmailConfidence (toLowerCase m) (Some ''scraped-html'')
                   (if \<not> checkMXRecords e domain then invalid else unknown) domain)"
proof -
  have sc: "m \<in> set (scrapeEmailsFromWebsite e site)"
    using scrape_mailto[OF assms(3,4)] assms(5) by blast
  then have src: "map_of (snd (collectEmails e businessName site)) (toLowerCase m) = Some ''scraped-html''"
    by (rule collectEmails_scraped)
  then have 1: "map_of (sources (discoverEmails e businessName site)) (toLowerCase m) = Some ''scraped-html''"
    by (simp add: discoverEmails_sources[OF assms(1,2)])
  have 2: "map_of (sources (discoverEmails e businessName site)) k \<noteq> Some ''scraped-mailto''" for k
    using discoverEmails_tags[of e businessName site k "''scraped-mailto''"] by auto
  have mem: "toLowerCase m \<in> set (fst (collectEmails e businessName site))"
    using sc by (rule collectEmails_holds_scraped)
  have 3: "confidenceOf (confidence (discoverEmails e businessName site)) (toLowerCase m) =
           (if \<not> isValidEmailFormat (toLowerCase m) then 0
            else scoreEmailConfidence (toLowerCase m) (Some ''scraped-html'')
                   (if \<not> checkMXRecords e domain then invalid else unknown) domain)"
    unfolding discoverEmails_confidence[OF assms(1,2)] validateAll_conf[OF mem] src ..
  from 1 2 3 show ?thesis by blast
qed

theorem mailto_addresses_tagged_scraped_html_witness:
  "''Bo@a.io'' \<in> set (mailtoRegex sample_env ''mailto:Bo@a.io'') \<and>
   map_of (sources (discoverEmails sample_env [] ''a.io'')) (toLowerCase ''Bo@a.io'')
     = Some ''scraped-html'' \<and>
   confidenceOf (confidence (discoverEmails sample_env [] ''a.io'')) ''bo@a.io'' = 80 \<and>
   scoreEmailConfidence ''bo@a.io'' (Some ''scraped-html'') unknown ''a.io'' = 80 \<and>
   scoreEmailConfidence ''bo@a.io'' (Some ''scraped-mailto'') unknown ''a.io'' = 90"
proof -
  have get: "http_get sample_env (withScheme ''a.io'') = Response 200 ''OK'' None (Body ''mailto:Bo@a.io'')"
    by code_simp
  have ok: "ok 200" by (simp add: ok_def)
  have m: "''Bo@a.io'' \<in> set (mailtoRegex sample_env ''mailto:Bo@a.io'')" by code_simp
  have ne: "''a.io'' \<noteq> []" by simp
  note t = mailto_addresses_tagged_scraped_html[OF sample_domain ne get ok m, of "[]"]
  have c: "confidenceOf (confidence (discoverEmails sample_env [] ''a.io'')) ''bo@a.io'' = 80"
    unfolding sample_confidence by code_simp
  have s1: "scoreEmailConfidence ''bo@a.io'' (Some ''scraped-html'') unknown ''a.io'' = 80"
    by code_simp
  have s2: "scoreEmailConfidence ''bo@a.io'' (Some ''scraped-mailto'') unknown ''a.io'' = 90"
    by code_simp
  from m t[THEN conjunct1] c s1 s2 show ?thesis by (intro conjI)
qed

text \<open>
  C9, as stated, fails: when the first word of the cleaned business name has more than
  two characters, the catalogue holds \<open>contact@<word>.com\<close>, an address at another
  domain than the website's.
\<close>

theorem patterns_other_domain_counterexample:
  "extractDomain_email (hostname_of sample_env) ''a.io'' = Some ''a.io'' \<and>
   ''contact@acme.com'' \<in> set (generateEmailPatterns (hostname_of sample_env) ''Acme'' ''a.io'') \<and>
   domainPart ''contact@acme.com'' = Some ''acme.com'' \<and>
   ''acme.com'' \<noteq> ''a.io''"
proof -
  have "domainPart ''contact@acme.com'' = Some ''acme.com''" by code_simp
  then show ?thesis
    unfolding sample_patterns by (simp add: sample_domain)
qed

text \<open>
  C9, amended.  For every business name and every website whose domain parses, every
  address returned by \<open>generateEmailPatterns\<close> either is an address at the website's
  extracted domain (a local part without \<open>@\<close>, then \<open>@\<close>, then that domain), or is
  \<open>contact@<word>.com\<close> for the first word of the cleaned business name, that word
  having more than two characters.
\<close>

theorem generateEmailPatterns_domain_or_name:
  assumes "extractDomain_email parse site = Some domain"
    and "email \<in> set (generateEmailPatterns parse businessName site)"
  shows "(\<exists>local. email = local @ ''@'' @ domain \<and> CHR ''@'' \<notin> set local) \<or>
         (2 < length (cleanName businessName) \<and>
          email = ''contact@'' @ cleanName businessName @ ''.com'')"
proof -
  let ?cn = "cleanName businessName"
  have ne: "domain \<noteq> []"
  proof
    assume "domain = []"
    with assms(1) have "generateEmailPatterns parse businessName site = []"
      by (simp add: generateEmailPatterns_no_domain)
    with assms(2) show False by simp
  qed
  have mem: "email \<in> (\<lambda>prefix. prefix @ ''@'' @ domain) ` set EMAIL_PATTERNS \<union>
     (if ?cn \<noteq> [] \<and> length ?cn > 2
      then {?cn @ ''@'' @ domain, ''contact@'' @ ?cn @ ''.com''} else {}) \<union>
     {''estimate@'' @ domain, ''quote@'' @ domain, ''service@'' @ domain,
      ''booking@'' @ domain, ''appointments@'' @ domain}"
    using assms(2) unfolding generateEmailPatterns_set[OF assms(1) ne, of businessName] .
  have at: "CHR ''@'' \<notin> set l \<Longrightarrow> email = l @ ''@'' @ domain \<Longrightarrow> ?thesis" for l
    by (intro disjI1 exI[of _ l] conjI)
  from mem show ?thesis
  proof (elim UnE)
    assume "email \<in> (\<lambda>prefix. prefix @ ''@'' @ domain) ` set EMAIL_PATTERNS"
    then obtain p where p: "p \<in> set EMAIL_PATTERNS" and e: "email = p @ ''@'' @ domain"
      by (rule imageE)
    from EMAIL_PATTERNS_no_at[OF p] e show ?thesis by (rule at)
  next
    assume named: "email \<in> (if ?cn \<noteq> [] \<and> length ?cn > 2
         then {?cn @ ''@'' @ domain, ''contact@'' @ ?cn @ ''.com''} else {})"
    show ?thesis
    proof (cases "?cn \<noteq> [] \<and> length ?cn > 2")
      case False
      with named have "email \<in> {}" by (simp only: if_False)
      then show ?thesis by simp
    next
      case True
      then have "(if ?cn \<noteq> [] \<and> length ?cn > 2
         then {?cn @ ''@'' @ domain, ''contact@'' @ ?cn @ ''.com''} else {}) =
         {?cn @ ''@'' @ domain, ''contact@'' @ ?cn @ ''.com''}" by (rule if_P)
      with named have "email \<in> {?cn @ ''@'' @ domain, ''contact@'' @ ?cn @ ''.com''}"
        by (simp only:)
      then have "email = ?cn @ ''@'' @ domain \<or> email = ''contact@'' @ ?cn @ ''.com''"
        by (simp only: insert_iff empty_iff simp_thms)
      then show ?thesis
      proof
        assume "email = ?cn @ ''@'' @ domain"
        with at_not_in_cleanName[of businessName] show ?thesis by (rule at)
      next
        assume "email = ''contact@'' @ ?cn @ ''.com''"
        with True show ?thesis by (intro disjI2 conjI) simp_all
      qed
    qed
  next
    assume "email \<in> {''estimate@'' @ domain, ''quote@'' @ domain, ''service@'' @ domain,
         ''booking@'' @ domain, ''appointments@'' @ domain}"
    then have "email = ''estimate@'' @ domain \<or> email = ''quote@'' @ domain \<or>
        email = ''service@'' @ domain \<or> email = ''booking@'' @ domain \<or>
        email = ''appointments@'' @ domain"
      by (simp only: insert_iff empty_iff simp_thms)
    then show ?thesis
    proof (elim disjE)
      assume "email = ''estimate@'' @ domain"
      then have "email = ''estimate'' @ ''@'' @ domain" by simp
      then show ?thesis by (rule at[rotated]) simp
    next
      assume "email = ''quote@'' @ domain"
      then have "email = ''quote'' @ ''@'' @ domain" by simp
      then show ?thesis by (rule at[rotated]) simp
    next
      assume "email = ''service@'' @ domain"
      then have "email = ''service'' @ ''@'' @ domain" by simp
      then show ?thesis by (rule at[rotated]) simp
    next
      assume "email = ''booking@'' @ domain"
      then have "email = ''booking'' @ ''@'' @ domain" by simp
      then show ?thesis by (rule at[rotated]) simp
    next
      assume "email = ''appointments@'' @ domain"
      then have "email = ''appointments'' @ ''@'' @ domain" by simp
      then show ?thesis by (rule at[rotated]) simp
    qed
  qed
qed

theorem generateEmailPatterns_domain_or_name_witness:
  "extractDomain_email (hostname_of sample_env) ''a.io'' = Some ''a.io'' \<and>
   ''acme@a.io'' \<in> set (generateEmailPatterns (hostname_of sample_env) ''Acme'' ''a.io'') \<and>
   ((\<exists>local. ''acme@a.io'' = local @ ''@'' @ ''a.io'' \<and> CHR ''@'' \<notin> set local) \<or>
    (2 < length (cleanName ''Acme'') \<and> ''acme@a.io'' = ''contact@'' @ cleanName ''Acme'' @ ''.com''))"
proof -
  have m: "''acme@a.io'' \<in> set (generateEmailPatterns (hostname_of sample_env) ''Acme'' ''a.io'')"
    unfolding sample_patterns by simp
  from sample_domain m generateEmailPatterns_domain_or_name[OF sample_domain m]
  show ?thesis by (intro conjI)
qed


section \<open>Properties of the website intelligence extractor\<close>

text \<open>
  C7.  \<open>extractWebsiteIntelligence\<close> always returns and never throws.  When the request
  fails, when the response is not 2xx, and when the body cannot be read, it returns the
  empty snapshot (no technology, every contact flag false, no business facts,
  completeness 0) whose findings are the "Fetching" line followed by one line that
  describes the failure.
\<close>

theorem extractWebsiteIntelligence_never_throws:
  "(\<exists>r. extractWebsiteIntelligence e site = Returned r) \<and>
   (\<forall>msg. http_get e (withScheme site) = NetError msg \<longrightarrow>
      extractWebsiteIntelligence e site =
        Returned (createEmptyResult [''Fetching '' @ withScheme site @ ''...'', ''Error: '' @ msg])) \<and>
   (\<forall>st txt hdr b. http_get e (withScheme site) = Response st txt hdr b \<and> \<not> ok st \<longrightarrow>
      extractWebsiteIntelligence e site =
        Returned (createEmptyResult [''Fetching '' @ withScheme site @ ''...'',
                                     ''HTTP '' @ show_nat st @ '': '' @ txt])) \<and>
   (\<forall>st txt hdr msg. http_get e (withScheme site) = Response st txt hdr (BodyError msg) \<and> ok st \<longrightarrow>
      extractWebsiteIntelligence e site =
        Returned (createEmptyResult [''Fetching '' @ withScheme site @ ''...'', ''Error: '' @ msg])) \<and>
   technology (createEmptyResult findings) =
     \<lparr>cms = None, analytics = None, chatWidgets = None, bookingSystems = None\<rparr> \<and>
   contactMethods (createEmptyResult findings) =
     \<lparr>hasContactForm = False, hasLiveChat = False, hasBookingSystem = False,
      hasPhoneClick = False, contactFormUrl = None, bookingUrl = None\<rparr> \<and>
   businessIntel (createEmptyResult findings) =
     \<lparr>employeeCount = None, foundedYear = None, certifications = None, serviceAreas = None\<rparr> \<and>
   completeness (createEmptyResult findings) = 0 \<and>
   rawFindings (createEmptyResult findings) = findings"
proof -
  have 1: "\<exists>r. extractWebsiteIntelligence e site = Returned r" by (rule extract_returns)
  have 2: "\<forall>msg. http_get e (withScheme site) = NetError msg \<longrightarrow>
      extractWebsiteIntelligence e site =
        Returned (createEmptyResult [''Fetching '' @ withScheme site @ ''...'', ''Error: '' @ msg])"
    using extract_net_error by blast
  have 3: "\<forall>st txt hdr b. http_get e (withScheme site) = Response st txt hdr b \<and> \<not> ok st \<longrightarrow>
      extractWebsiteIntelligence e site =
        Returned (createEmptyResult [''Fetching '' @ withScheme site @ ''...'',
                                     ''HTTP '' @ show_nat st @ '': '' @ txt])"
    using extract_not_ok by blast
  have 4: "\<forall>st txt hdr msg. http_get e (withScheme site) = Response st txt hdr (BodyError msg) \<and> ok st \<longrightarrow>
      extractWebsiteIntelligence e site =
        Returned (createEmptyResult [''Fetching '' @ withScheme site @ ''...'', ''Error: '' @ msg])"
    using extract_body_error by blast
  have 5: "technology (createEmptyResult findings) =
     \<lparr>cms = None, analytics = None, chatWidgets = None, bookingSystems = None\<rparr>"
    "contactMethods (createEmptyResult findings) =
     \<lparr>hasContactForm = False, hasLiveChat = False, hasBookingSystem = False,
      hasPhoneClick = False, contactFormUrl = None, bookingUrl = None\<rparr>"
    "businessIntel (createEmptyResult findings) =
     \<lparr>employeeCount = None, foundedYear = None, certifications = None, serviceAreas = None\<rparr>"
    "completeness (createEmptyResult findings) = 0"
    "rawFindings (createEmptyResult findings) = findings"
    by (simp_all add: createEmptyResult_def)
  from 1 2 3 4 5 show ?thesis by (intro conjI)
qed

theorem extractWebsiteIntelligence_never_throws_witness:
  "http_get sample_env (withScheme ''b.io'') = NetError ''fetch failed'' \<and>
   extractWebsiteIntelligence sample_env ''b.io'' =
     Returned (createEmptyResult [''Fetching https://b.io...'', ''Error: fetch failed''])"
proof -
  have g: "http_get sample_env (withScheme ''b.io'') = NetError ''fetch failed''" by code_simp
  have w: "withScheme ''b.io'' = ''https://b.io''" by code_simp
  from extractWebsiteIntelligence_never_throws[of sample_env "''b.io''", THEN conjunct2, THEN conjunct1]
    g
  have "extractWebsiteIntelligence sample_env ''b.io'' =
     Returned (createEmptyResult [''Fetching '' @ withScheme ''b.io'' @ ''...'', ''Error: '' @ ''fetch failed''])"
    by blast
  then have "extractWebsiteIntelligence sample_env ''b.io'' =
     Returned (createEmptyResult [''Fetching https://b.io...'', ''Error: fetch failed''])"
    unfolding w by simp
  with g show ?thesis by (intro conjI)
qed



section \<open>Properties of the social profile verifier\<close>

text \<open>
  C8.  In one run of \<open>verifySocialProfiles\<close> the result holds at most one profile per
  platform, and a platform whose profile was found among the website's links is never
  probed by URL guessing: the log of the run holds no existence probe for it.
\<close>

theorem verifySocialProfiles_one_record_no_reprobe:
  "distinct (map platform (profiles (fst (verifySocialProfiles e businessName site)))) \<and>
   (\<forall>p. found p (websiteProfiles e site) \<longrightarrow>
        probeCount p (snd (verifySocialProfiles e businessName site)) = 0)"
  by (simp add: verifySocialProfiles_parts sortDescending_distinct_map gatherProfiles_distinct
      gatherProfiles_no_probe)

theorem verifySocialProfiles_one_record_no_reprobe_witness:
  "found linkedin (websiteProfiles sample_env_linked (Some ''a.io'')) \<and>
   probeCount linkedin (snd (verifySocialProfiles sample_env_linked ''Bo'' (Some ''a.io''))) = 0 \<and>
   snd (verifySocialProfiles sample_env_linked ''Bo'' (Some ''a.io'')) =
     [(facebook, ''https://www.facebook.com/bo''), (instagram, ''https://www.instagram.com/bo/'')] \<and>
   distinct (map platform (profiles (fst (verifySocialProfiles sample_env_linked ''Bo'' (Some ''a.io'')))))"
proof -
  have f: "found linkedin (websiteProfiles sample_env_linked (Some ''a.io''))" by code_simp
  have p: "snd (verifySocialProfiles sample_env_linked ''Bo'' (Some ''a.io'')) =
     [(facebook, ''https://www.facebook.com/bo''), (instagram, ''https://www.instagram.com/bo/'')]"
    by code_simp
  note t = verifySocialProfiles_one_record_no_reprobe[of sample_env_linked "''Bo''" "Some ''a.io''"]
  from t f have c: "probeCount linkedin (snd (verifySocialProfiles sample_env_linked ''Bo'' (Some ''a.io''))) = 0"
    by blast
  from f c p t[THEN conjunct1] show ?thesis by (intro conjI)
qed

end
